theory Spec2Isabelle
  imports Main
begin

chapter \<open>HelixLang: type system, symbol table, heap, interpreter and IR optimizer\<close>

section \<open>Shared Python notions\<close>

text \<open>
  A Python \<^verbatim>\<open>dict\<close> with string keys is an association list whose keys are
  pairwise distinct, in insertion order. \<open>map_of\<close> is the lookup, \<open>dict_set\<close> is
  \<^verbatim>\<open>d[k] = v\<close> (an existing key keeps its position, a new key goes last).
\<close>

type_synonym 'v dict = "(string \<times> 'v) list"

fun dict_set :: "'v dict \<Rightarrow> string \<Rightarrow> 'v \<Rightarrow> 'v dict" where
  "dict_set [] k v = [(k, v)]"
| "dict_set ((k', v') # d) k v = (if k' = k then (k, v) # d else (k', v') # dict_set d k v)"

definition dict_has :: "'v dict \<Rightarrow> string \<Rightarrow> bool" where
  "dict_has d k = (map_of d k \<noteq> None)"

section \<open>The type system (core/types.py)\<close>

datatype htype =
    IntType
  | FloatType
  | BoolType
  | StringType
  | GenomeType
  | ProteinType
  | CellType
  | ArrayType htype
  | TupleType "htype list"
  | StructType string "htype dict"
  | FunctionType "htype list" htype

lemma size_zip_left:
  "(a, b) \<in> set (zip xs ys) \<Longrightarrow> size a < Suc (size_list size xs)"
  by (metis in_set_zipE less_Suc_eq_le size_list_estimation' order_refl)

lemma size_zip_right:
  "(a, b) \<in> set (zip xs ys) \<Longrightarrow> size b < Suc (size_list size ys)"
  by (metis in_set_zipE less_Suc_eq_le size_list_estimation' order_refl)

lemma size_field:
  "(k, t) \<in> set fs \<Longrightarrow> size t < Suc (size_list (size_prod (\<lambda>x. 0) size) fs)"
  by (induction fs) auto

lemma size_map_of:
  "map_of fs k = Some t \<Longrightarrow> size t < Suc (size_list (size_prod (\<lambda>x. 0) size) fs)"
  by (rule size_field) (rule map_of_SomeD)

lemma size_zip_both:
  "(a, b) \<in> set (zip xs ys) \<Longrightarrow>
   size a + size b < Suc (Suc (size_list size xs + size_list size ys))"
  using size_zip_left [of a b xs ys] size_zip_right [of a b xs ys] by linarith

lemma size_field_both:
  "map_of fs k = Some t \<Longrightarrow> (k, b) \<in> set fs' \<Longrightarrow>
   size t + size b < Suc (Suc (size_list (size_prod (\<lambda>x. 0) size) fs +
                                size_list (size_prod (\<lambda>x. 0) size) fs'))"
  using size_map_of [of fs k t] size_field [of k b fs'] by linarith

text \<open>
  \<open>type_eq a b\<close> is Python's \<^verbatim>\<open>a == b\<close>, that is \<^verbatim>\<open>a.__eq__(b)\<close>: every class
  below derives directly from \<^verbatim>\<open>Type\<close> and its \<^verbatim>\<open>__eq__\<close> returns a bool, so the
  left operand's method decides. \<^verbatim>\<open>FloatType.__eq__\<close> also accepts an \<^verbatim>\<open>IntType\<close>
  on the right; \<^verbatim>\<open>IntType.__eq__\<close> accepts only an \<^verbatim>\<open>IntType\<close>. Two dicts are equal
  when they have the same number of keys and every key of the left one is in the right
  one with an equal value.
\<close>

function (sequential) type_eq :: "htype \<Rightarrow> htype \<Rightarrow> bool" where
  "type_eq IntType other = (other = IntType)"
| "type_eq FloatType other = (other = FloatType \<or> other = IntType)"
| "type_eq BoolType other = (other = BoolType)"
| "type_eq StringType other = (other = StringType)"
| "type_eq GenomeType other = (other = GenomeType)"
| "type_eq ProteinType other = (other = ProteinType)"
| "type_eq CellType other = (other = CellType)"
| "type_eq (ArrayType e) (ArrayType e') = type_eq e e'"
| "type_eq (ArrayType e) other = False"
| "type_eq (TupleType es) (TupleType es') =
     (list_all (\<lambda>(a, b). type_eq a b) (zip es es') \<and> length es = length es')"
| "type_eq (TupleType es) other = False"
| "type_eq (StructType n fs) (StructType n' fs') =
     (if n \<noteq> n' then False
      else length fs = length fs' \<and>
           list_all (\<lambda>(k, t). case map_of fs' k of None \<Rightarrow> False
                                | Some t' \<Rightarrow> type_eq t t') fs)"
| "type_eq (StructType n fs) other = False"
| "type_eq (FunctionType ps r) (FunctionType ps' r') =
     (length ps = length ps' \<and> list_all (\<lambda>(a, b). type_eq a b) (zip ps ps') \<and>
      type_eq r r')"
| "type_eq (FunctionType ps r) other = False"
  by pat_completeness auto
termination
  apply (relation "measure (\<lambda>(a, b). size a)")
  apply simp_all
  apply (auto dest: size_zip_left size_field less_SucI)
  done

text \<open>
  \<^verbatim>\<open>is_subtype_of\<close>: the base method (\<^verbatim>\<open>self == other\<close>) for the classes that do
  not override it, and the overrides of FloatType, ArrayType, TupleType, StructType and
  FunctionType.
\<close>

function is_subtype_of :: "htype \<Rightarrow> htype \<Rightarrow> bool" where
  "is_subtype_of IntType other = type_eq IntType other"
| "is_subtype_of FloatType other = (other = FloatType)"
| "is_subtype_of BoolType other = type_eq BoolType other"
| "is_subtype_of StringType other = type_eq StringType other"
| "is_subtype_of GenomeType other = type_eq GenomeType other"
| "is_subtype_of ProteinType other = type_eq ProteinType other"
| "is_subtype_of CellType other = type_eq CellType other"
| "is_subtype_of (ArrayType e) other =
     (case other of ArrayType e' \<Rightarrow> is_subtype_of e e' | _ \<Rightarrow> False)"
| "is_subtype_of (TupleType es) other =
     (case other of
        TupleType es' \<Rightarrow>
          if length es \<noteq> length es' then False
          else list_all (\<lambda>(a, b). is_subtype_of a b) (zip es es')
      | _ \<Rightarrow> False)"
| "is_subtype_of (StructType n fs) other =
     (case other of
        StructType n' fs' \<Rightarrow>
          if n \<noteq> n' then False
          else list_all (\<lambda>(key, typ).
                 case map_of fs key of None \<Rightarrow> False
                 | Some t \<Rightarrow> is_subtype_of t typ) fs'
      | _ \<Rightarrow> False)"
| "is_subtype_of (FunctionType ps r) other =
     (case other of
        FunctionType ps' r' \<Rightarrow>
          if length ps \<noteq> length ps' then False
          else list_all (\<lambda>(a, b). is_subtype_of a b) (zip ps' ps) \<and> is_subtype_of r r'
      | _ \<Rightarrow> False)"
  by pat_completeness auto
termination
  apply (relation "measure (\<lambda>(a, b). size a + size b)")
  apply simp_all
  apply (auto dest!: size_zip_both size_field_both)
  done

text \<open>
  \<^verbatim>\<open>unify\<close>. The loops of the tuple, struct and function cases return \<^verbatim>\<open>None\<close> at
  the first pair that does not unify; \<open>those\<close> over the mapped list is that loop
  (\<^verbatim>\<open>unify\<close> has no effect, so looking at the later pairs changes nothing).
  The struct case walks \<^verbatim>\<open>self.fields.keys() | other.fields.keys()\<close>, a set whose
  order Python leaves open; the model walks the keys of \<open>self\<close> and then the new keys
  of \<open>other\<close>. No operation of the module looks at the order of the resulting dict.
\<close>

definition union_keys :: "'v dict \<Rightarrow> 'v dict \<Rightarrow> string list" where
  "union_keys fs fs' = remdups (map fst fs @ map fst fs')"

function unify :: "htype \<Rightarrow> htype \<Rightarrow> htype option" where
  "unify IntType other = (if type_eq IntType other then Some IntType else None)"
| "unify FloatType other =
     (if other = IntType \<or> other = FloatType then Some FloatType else None)"
| "unify BoolType other = (if type_eq BoolType other then Some BoolType else None)"
| "unify StringType other = (if type_eq StringType other then Some StringType else None)"
| "unify GenomeType other = (if type_eq GenomeType other then Some GenomeType else None)"
| "unify ProteinType other = (if type_eq ProteinType other then Some ProteinType else None)"
| "unify CellType other = (if type_eq CellType other then Some CellType else None)"
| "unify (ArrayType e) other =
     (case other of
        ArrayType e' \<Rightarrow>
          (case unify e e' of None \<Rightarrow> None | Some elem_type \<Rightarrow> Some (ArrayType elem_type))
      | _ \<Rightarrow> None)"
| "unify (TupleType es) other =
     (case other of
        TupleType es' \<Rightarrow>
          if length es \<noteq> length es' then None
          else (case those (map (\<lambda>(a, b). unify a b) (zip es es')) of
                  None \<Rightarrow> None
                | Some unified_elements \<Rightarrow> Some (TupleType unified_elements))
      | _ \<Rightarrow> None)"
| "unify (StructType n fs) other =
     (case other of
        StructType n' fs' \<Rightarrow>
          if n \<noteq> n' then None
          else (case those (map (\<lambda>key.
                        case map_of fs key of
                          None \<Rightarrow> None
                        | Some t1 \<Rightarrow>
                            (case map_of fs' key of
                               None \<Rightarrow> None
                             | Some t2 \<Rightarrow>
                                 (case unify t1 t2 of
                                    None \<Rightarrow> None
                                  | Some unified \<Rightarrow> Some (key, unified))))
                      (union_keys fs fs')) of
                  None \<Rightarrow> None
                | Some unified_fields \<Rightarrow> Some (StructType n unified_fields))
      | _ \<Rightarrow> None)"
| "unify (FunctionType ps r) other =
     (case other of
        FunctionType ps' r' \<Rightarrow>
          if length ps \<noteq> length ps' then None
          else (case those (map (\<lambda>(a, b). unify a b) (zip ps ps')) of
                  None \<Rightarrow> None
                | Some unified_params \<Rightarrow>
                    (case unify r r' of
                       None \<Rightarrow> None
                     | Some unified_return \<Rightarrow>
                         Some (FunctionType unified_params unified_return)))
      | _ \<Rightarrow> None)"
  by pat_completeness auto
termination
  apply (relation "measure (\<lambda>(a, b). size a)")
  apply simp_all
  apply (auto dest: size_zip_left size_map_of less_SucI)
  done

text \<open>
  The spec's reading of width subtyping, on dicts as maps: every field that \<open>fb\<close>
  declares is present in \<open>fa\<close> with a type that is a subtype of the declared one.
\<close>

definition fields_covered :: "htype dict \<Rightarrow> htype dict \<Rightarrow> bool" where
  "fields_covered fa fb =
     (\<forall>k t. map_of fb k = Some t \<longrightarrow> (\<exists>t'. map_of fa k = Some t' \<and> is_subtype_of t' t))"

section \<open>The symbol table (core/symbols.py)\<close>

text \<open>
  \<^verbatim>\<open>str(n)\<close> of an integer, as the f-strings of the error messages print it.
\<close>

definition digit_char :: "nat \<Rightarrow> char" where
  "digit_char d = ''0123456789'' ! (d mod 10)"

function str_nat :: "nat \<Rightarrow> string" where
  "str_nat n = (if n < 10 then [digit_char n] else str_nat (n div 10) @ [digit_char (n mod 10)])"
  by pat_completeness auto
termination
  by (relation "measure (\<lambda>n. n)") auto

definition str_int :: "int \<Rightarrow> string" where
  "str_int i = (if i < 0 then ''-'' @ str_nat (nat (- i)) else str_nat (nat i))"

text \<open>
  Python list indexing \<^verbatim>\<open>xs[i]\<close>: a negative index counts from the end, an index
  out of range raises IndexError (here \<open>None\<close>). The result carries the position read.
\<close>

definition py_index :: "'a list \<Rightarrow> int \<Rightarrow> (nat \<times> 'a) option" where
  "py_index xs i =
     (let len = int (length xs); pos = (if i < 0 then len + i else i)
      in if 0 \<le> pos \<and> pos < len then Some (nat pos, xs ! nat pos) else None)"

record ('ty, 'a) symbol =
  sym_name :: string
  sym_type :: 'ty
  scope_level :: int
  is_mutable :: bool
  is_global :: bool
  is_function :: bool
  metadata :: "'a dict"

record ('ty, 'a) scope =
  level :: int
  symbols :: "('ty, 'a) symbol dict"

record ('ty, 'a) symbol_table =
  scopes :: "('ty, 'a) scope list"
  current_level :: int

datatype symtab_error =
    KeyError string
  | RuntimeError_builtin string
  | IndexError

definition Scope_insert ::
  "('ty, 'a) scope \<Rightarrow> ('ty, 'a) symbol \<Rightarrow> symtab_error + ('ty, 'a) scope" where
  "Scope_insert sc symbol =
     (if dict_has (symbols sc) (sym_name symbol)
      then Inl (KeyError (''Symbol '' @ [CHR 0x27] @ sym_name symbol @ [CHR 0x27] @
                  '' already declared in current scope (level '' @ str_int (level sc) @ '').''))
      else Inr (sc\<lparr>symbols := dict_set (symbols sc) (sym_name symbol) symbol\<rparr>))"

definition Scope_lookup :: "('ty, 'a) scope \<Rightarrow> string \<Rightarrow> ('ty, 'a) symbol option" where
  "Scope_lookup sc nm = map_of (symbols sc) nm"

text \<open>The \<^verbatim>\<open>print\<close> calls of the class write to stdout only and are left out.\<close>

definition enter_scope :: "('ty, 'a) symbol_table \<Rightarrow> ('ty, 'a) symbol_table" where
  "enter_scope st =
     (let lvl = current_level st + 1
      in st\<lparr>current_level := lvl,
            scopes := scopes st @ [\<lparr>level = lvl, symbols = []\<rparr>]\<rparr>)"

definition SymbolTable_init :: "('ty, 'a) symbol_table" where
  "SymbolTable_init = enter_scope \<lparr>scopes = [], current_level = - 1\<rparr>"

definition exit_scope :: "('ty, 'a) symbol_table \<Rightarrow> symtab_error + ('ty, 'a) symbol_table" where
  "exit_scope st =
     (if current_level st < 0 then Inl (RuntimeError_builtin ''No scope to exit.'')
      else if scopes st = [] then Inl IndexError
      else Inr (st\<lparr>scopes := butlast (scopes st), current_level := current_level st - 1\<rparr>))"

text \<open>
  \<^verbatim>\<open>metadata or {}\<close>: an absent and an empty dict both give the empty dict.
\<close>

definition insert_symbol ::
  "('ty, 'a) symbol_table \<Rightarrow> string \<Rightarrow> 'ty \<Rightarrow> bool \<Rightarrow> bool \<Rightarrow> bool \<Rightarrow> 'a dict option \<Rightarrow>
   symtab_error + (('ty, 'a) symbol \<times> ('ty, 'a) symbol_table)" where
  "insert_symbol st nm ty mutable global function md =
     (let symbol = \<lparr>sym_name = nm, sym_type = ty, scope_level = current_level st,
                     is_mutable = mutable, is_global = global, is_function = function,
                     metadata = (case md of None \<Rightarrow> [] | Some m \<Rightarrow> m)\<rparr>
      in case py_index (scopes st) (current_level st) of
           None \<Rightarrow> Inl IndexError
         | Some (j, sc) \<Rightarrow>
             (case Scope_insert sc symbol of
                Inl e \<Rightarrow> Inl e
              | Inr sc' \<Rightarrow> Inr (symbol, st\<lparr>scopes := (scopes st)[j := sc']\<rparr>)))"

fun lookup_scopes :: "('ty, 'a) scope list \<Rightarrow> string \<Rightarrow> ('ty, 'a) symbol option" where
  "lookup_scopes [] nm = None"
| "lookup_scopes (sc # rest) nm =
     (case Scope_lookup sc nm of Some symbol \<Rightarrow> Some symbol | None \<Rightarrow> lookup_scopes rest nm)"

definition lookup :: "('ty, 'a) symbol_table \<Rightarrow> string \<Rightarrow> ('ty, 'a) symbol option" where
  "lookup st nm = lookup_scopes (rev (scopes st)) nm"

text \<open>
  Every table the class builds keeps \<^verbatim>\<open>current_level == len(scopes) - 1\<close>.
\<close>

definition table_ok :: "('ty, 'a) symbol_table \<Rightarrow> bool" where
  "table_ok st = (current_level st = int (length (scopes st)) - 1)"

section \<open>The reference-counted heap (runtime/memory.py)\<close>

text \<open>
  A \<^verbatim>\<open>MemoryObject\<close> is a value and its reference count. The heap is the dict from
  addresses to objects (no operation depends on its order, so it is a map). The size of a
  value, \<^verbatim>\<open>value.size_in_bytes()\<close>, is the method of the value's class: the operations
  take it as the parameter \<open>sz\<close>.

  \<^verbatim>\<open>stack_frames\<close> is kept with the top frame first (the head of the list is
  \<^verbatim>\<open>stack_frames[-1]\<close>). \<^verbatim>\<open>current_frame_vars\<close> is a reference: after
  \<^verbatim>\<open>push_stack_frame\<close> it is the top frame itself (\<open>Top_frame\<close>), so that a
  declaration through it is seen in the stack; at construction, after the last frame is
  popped, and when \<^verbatim>\<open>pop_stack_frame\<close> raises while releasing, it is a dict that is not
  on the stack (\<open>Detached\<close>).

  An operation returns its result or the \<^verbatim>\<open>MemoryError\<close> it raises, and the manager
  as the operation left it (Python keeps the mutations made before a raise).
\<close>

datatype mem_error = MemoryError string

record 'v memory_object =
  obj_value :: 'v
  ref_count :: int

datatype frame_ref = Top_frame | Detached "int dict"

record 'v memory_manager =
  heap :: "int \<rightharpoonup> 'v memory_object"
  next_addr :: int
  stack_frames :: "int dict list"
  current_frame_vars :: frame_ref
  heap_size :: int
  used_heap_size :: int

definition MemoryManager_init :: "int \<Rightarrow> 'v memory_manager" where
  "MemoryManager_init hs =
     \<lparr>heap = Map.empty, next_addr = 1, stack_frames = [],
      current_frame_vars = Detached [], heap_size = hs, used_heap_size = 0\<rparr>"

definition allocate ::
  "('v \<Rightarrow> int) \<Rightarrow> 'v memory_manager \<Rightarrow> 'v \<Rightarrow> (mem_error + int) \<times> 'v memory_manager" where
  "allocate sz mm v =
     (let size = sz v
      in if used_heap_size mm + size > heap_size mm
         then (Inl (MemoryError ''Out of heap memory''), mm)
         else (let addr = next_addr mm
               in (Inr addr,
                   mm\<lparr>next_addr := addr + 1,
                      heap := (heap mm)(addr \<mapsto> \<lparr>obj_value = v, ref_count = 1\<rparr>),
                      used_heap_size := used_heap_size mm + size\<rparr>)))"

definition deallocate ::
  "('v \<Rightarrow> int) \<Rightarrow> 'v memory_manager \<Rightarrow> int \<Rightarrow> (mem_error + unit) \<times> 'v memory_manager" where
  "deallocate sz mm addr =
     (case heap mm addr of
        None \<Rightarrow> (Inl (MemoryError (''Invalid free at address '' @ str_int addr)), mm)
      | Some obj \<Rightarrow>
          if ref_count obj \<noteq> 0
          then (Inl (MemoryError (''Attempt to free still-referenced object at '' @
                       str_int addr)), mm)
          else (Inr (),
                mm\<lparr>used_heap_size := used_heap_size mm - sz (obj_value obj),
                   heap := (heap mm)(addr := None)\<rparr>))"

definition inc_ref ::
  "'v memory_manager \<Rightarrow> int \<Rightarrow> (mem_error + unit) \<times> 'v memory_manager" where
  "inc_ref mm addr =
     (case heap mm addr of
        None \<Rightarrow> (Inl (MemoryError (''Invalid inc_ref on address '' @ str_int addr)), mm)
      | Some obj \<Rightarrow>
          (Inr (), mm\<lparr>heap := (heap mm)(addr \<mapsto> obj\<lparr>ref_count := ref_count obj + 1\<rparr>)\<rparr>))"

text \<open>
  \<^verbatim>\<open>MemoryObject.dec_ref\<close> stores the decremented count before it tests it, so a
  raise for a negative count leaves the negative count behind.
\<close>

definition dec_ref ::
  "('v \<Rightarrow> int) \<Rightarrow> 'v memory_manager \<Rightarrow> int \<Rightarrow> (mem_error + unit) \<times> 'v memory_manager" where
  "dec_ref sz mm addr =
     (case heap mm addr of
        None \<Rightarrow> (Inl (MemoryError (''Invalid dec_ref on address '' @ str_int addr)), mm)
      | Some obj \<Rightarrow>
          (let obj' = obj\<lparr>ref_count := ref_count obj - 1\<rparr>;
               mm' = mm\<lparr>heap := (heap mm)(addr \<mapsto> obj')\<rparr>
           in if ref_count obj' < 0
              then (Inl (MemoryError ''Reference count dropped below zero''), mm')
              else if ref_count obj' = 0 then deallocate sz mm' addr
              else (Inr (), mm')))"

definition read_addr ::
  "'v memory_manager \<Rightarrow> int \<Rightarrow> (mem_error + 'v) \<times> 'v memory_manager" where
  "read_addr mm addr =
     (case heap mm addr of
        None \<Rightarrow> (Inl (MemoryError (''Invalid memory read at address '' @ str_int addr)), mm)
      | Some obj \<Rightarrow> (Inr (obj_value obj), mm))"

definition write_addr ::
  "('v \<Rightarrow> int) \<Rightarrow> 'v memory_manager \<Rightarrow> int \<Rightarrow> 'v \<Rightarrow>
   (mem_error + unit) \<times> 'v memory_manager" where
  "write_addr sz mm addr v =
     (case heap mm addr of
        None \<Rightarrow> (Inl (MemoryError (''Invalid memory write at address '' @ str_int addr)), mm)
      | Some old_obj \<Rightarrow>
          (let old_size = sz (obj_value old_obj); new_size = sz v
           in (Inr (),
               mm\<lparr>used_heap_size := used_heap_size mm + (new_size - old_size),
                  heap := (heap mm)(addr \<mapsto> old_obj\<lparr>obj_value := v\<rparr>)\<rparr>)))"

definition push_stack_frame :: "'v memory_manager \<Rightarrow> 'v memory_manager" where
  "push_stack_frame mm = mm\<lparr>stack_frames := [] # stack_frames mm, current_frame_vars := Top_frame\<rparr>"

text \<open>The loop of \<^verbatim>\<open>pop_stack_frame\<close> over \<^verbatim>\<open>frame.items()\<close>.\<close>

fun release_frame ::
  "('v \<Rightarrow> int) \<Rightarrow> 'v memory_manager \<Rightarrow> int dict \<Rightarrow> (mem_error + unit) \<times> 'v memory_manager" where
  "release_frame sz mm [] = (Inr (), mm)"
| "release_frame sz mm ((var, addr) # items) =
     (case dec_ref sz mm addr of
        (Inl e, mm') \<Rightarrow> (Inl e, mm')
      | (Inr u, mm') \<Rightarrow> release_frame sz mm' items)"

definition pop_stack_frame ::
  "('v \<Rightarrow> int) \<Rightarrow> 'v memory_manager \<Rightarrow> (mem_error + unit) \<times> 'v memory_manager" where
  "pop_stack_frame sz mm =
     (case stack_frames mm of
        [] \<Rightarrow> (Inl (MemoryError ''Pop stack frame called on empty stack''), mm)
      | frame # rest \<Rightarrow>
          (let popped = mm\<lparr>stack_frames := rest,
                           current_frame_vars :=
                             (case current_frame_vars mm of
                                Top_frame \<Rightarrow> Detached frame
                              | Detached d \<Rightarrow> Detached d)\<rparr>
           in case release_frame sz popped frame of
                (Inl e, mm') \<Rightarrow> (Inl e, mm')
              | (Inr u, mm') \<Rightarrow>
                  (Inr (),
                   mm'\<lparr>current_frame_vars :=
                          (if rest \<noteq> [] then Top_frame else Detached [])\<rparr>)))"

definition current_frame :: "'v memory_manager \<Rightarrow> int dict" where
  "current_frame mm =
     (case current_frame_vars mm of
        Detached d \<Rightarrow> d
      | Top_frame \<Rightarrow> (case stack_frames mm of [] \<Rightarrow> [] | frame # rest \<Rightarrow> frame))"

definition bind_current :: "'v memory_manager \<Rightarrow> string \<Rightarrow> int \<Rightarrow> 'v memory_manager" where
  "bind_current mm nm addr =
     (case current_frame_vars mm of
        Detached d \<Rightarrow> mm\<lparr>current_frame_vars := Detached (dict_set d nm addr)\<rparr>
      | Top_frame \<Rightarrow>
          (case stack_frames mm of
             [] \<Rightarrow> mm
           | frame # rest \<Rightarrow> mm\<lparr>stack_frames := dict_set frame nm addr # rest\<rparr>))"

definition declare_local_variable ::
  "('v \<Rightarrow> int) \<Rightarrow> 'v memory_manager \<Rightarrow> string \<Rightarrow> 'v \<Rightarrow>
   (mem_error + unit) \<times> 'v memory_manager" where
  "declare_local_variable sz mm nm v =
     (case allocate sz mm v of
        (Inl e, mm') \<Rightarrow> (Inl e, mm')
      | (Inr addr, mm') \<Rightarrow> (Inr (), bind_current mm' nm addr))"

definition get_local_variable ::
  "'v memory_manager \<Rightarrow> string \<Rightarrow> (mem_error + 'v) \<times> 'v memory_manager" where
  "get_local_variable mm nm =
     (case map_of (current_frame mm) nm of
        None \<Rightarrow> (Inl (MemoryError (''Local variable '' @ [CHR 0x27] @ nm @ [CHR 0x27] @
                         '' not found in current frame'')), mm)
      | Some addr \<Rightarrow> read_addr mm addr)"

definition set_local_variable ::
  "('v \<Rightarrow> int) \<Rightarrow> 'v memory_manager \<Rightarrow> string \<Rightarrow> 'v \<Rightarrow>
   (mem_error + unit) \<times> 'v memory_manager" where
  "set_local_variable sz mm nm v =
     (case map_of (current_frame mm) nm of
        None \<Rightarrow> (Inl (MemoryError (''Local variable '' @ [CHR 0x27] @ nm @ [CHR 0x27] @
                         '' not found in current frame'')), mm)
      | Some addr \<Rightarrow> write_addr sz mm addr v)"

definition check_address_valid :: "'v memory_manager \<Rightarrow> int \<Rightarrow> bool" where
  "check_address_valid mm addr = (heap mm addr \<noteq> None)"

text \<open>
  The operations of the class as one step function, and a run of operations from the
  manager as constructed. A raise does not end a run: the caller may catch it and go on
  using the manager.
\<close>

datatype 'v mm_op =
    Allocate 'v
  | Deallocate int
  | Inc_ref int
  | Dec_ref int
  | Read int
  | Write int 'v
  | Push_stack_frame
  | Pop_stack_frame
  | Declare_local_variable string 'v
  | Get_local_variable string
  | Set_local_variable string 'v

datatype 'v mm_result = Unit_result | Addr_result int | Value_result 'v

definition lift_result ::
  "('a \<Rightarrow> 'v mm_result) \<Rightarrow> (mem_error + 'a) \<times> 'v memory_manager \<Rightarrow>
   (mem_error + 'v mm_result) \<times> 'v memory_manager" where
  "lift_result f r = (case r of (Inl e, mm) \<Rightarrow> (Inl e, mm) | (Inr x, mm) \<Rightarrow> (Inr (f x), mm))"

fun mm_step ::
  "('v \<Rightarrow> int) \<Rightarrow> 'v mm_op \<Rightarrow> 'v memory_manager \<Rightarrow>
   (mem_error + 'v mm_result) \<times> 'v memory_manager" where
  "mm_step sz (Allocate v) mm = lift_result Addr_result (allocate sz mm v)"
| "mm_step sz (Deallocate a) mm = lift_result (\<lambda>u. Unit_result) (deallocate sz mm a)"
| "mm_step sz (Inc_ref a) mm = lift_result (\<lambda>u. Unit_result) (inc_ref mm a)"
| "mm_step sz (Dec_ref a) mm = lift_result (\<lambda>u. Unit_result) (dec_ref sz mm a)"
| "mm_step sz (Read a) mm = lift_result Value_result (read_addr mm a)"
| "mm_step sz (Write a v) mm = lift_result (\<lambda>u. Unit_result) (write_addr sz mm a v)"
| "mm_step sz Push_stack_frame mm = (Inr Unit_result, push_stack_frame mm)"
| "mm_step sz Pop_stack_frame mm = lift_result (\<lambda>u. Unit_result) (pop_stack_frame sz mm)"
| "mm_step sz (Declare_local_variable nm v) mm =
     lift_result (\<lambda>u. Unit_result) (declare_local_variable sz mm nm v)"
| "mm_step sz (Get_local_variable nm) mm = lift_result Value_result (get_local_variable mm nm)"
| "mm_step sz (Set_local_variable nm v) mm =
     lift_result (\<lambda>u. Unit_result) (set_local_variable sz mm nm v)"

fun mm_run :: "('v \<Rightarrow> int) \<Rightarrow> 'v mm_op list \<Rightarrow> 'v memory_manager \<Rightarrow> 'v memory_manager" where
  "mm_run sz [] mm = mm"
| "mm_run sz (op # ops) mm = mm_run sz ops (snd (mm_step sz op mm))"

text \<open>
  The heap invariant: every object on the heap has a count of at least one, and its
  address was handed out before (it is below \<^verbatim>\<open>next_addr\<close>).
\<close>

definition heap_ok :: "'v memory_manager \<Rightarrow> bool" where
  "heap_ok mm =
     (\<forall>a obj. heap mm a = Some obj \<longrightarrow> 1 \<le> ref_count obj \<and> a < next_addr mm)"

text \<open>
  The frames of the stack hold addresses that \<^verbatim>\<open>declare_local_variable\<close> got from
  \<^verbatim>\<open>allocate\<close>: they are pairwise distinct and below \<^verbatim>\<open>next_addr\<close>.
  \<open>release_post\<close> and \<open>step_post\<close> say what the release loop and one operation
  leave behind.
\<close>

definition frame_addrs :: "'v memory_manager \<Rightarrow> int list" where
  "frame_addrs mm = concat (map (map snd) (stack_frames mm))"

definition frames_ok :: "'v memory_manager \<Rightarrow> bool" where
  "frames_ok mm = (distinct (frame_addrs mm) \<and> (\<forall>a \<in> set (frame_addrs mm). a < next_addr mm))"

definition release_post ::
  "'v memory_manager \<Rightarrow> int dict \<Rightarrow> (mem_error + unit) \<Rightarrow> 'v memory_manager \<Rightarrow> bool" where
  "release_post mm items r mm' =
   (heap_ok mm' \<and> next_addr mm' = next_addr mm \<and>
    stack_frames mm' = stack_frames mm \<and> current_frame_vars mm' = current_frame_vars mm \<and>
    (\<forall>a. a \<notin> snd ` set items \<longrightarrow> heap mm' a = heap mm a) \<and>
    (\<forall>a. heap mm a = None \<longrightarrow> heap mm' a = None) \<and>
    (\<forall>a obj. heap mm a = Some obj \<longrightarrow> heap mm' a = None \<longrightarrow>
        ref_count obj = 1 \<and> a \<in> snd ` set items) \<and>
    (r = Inr () \<longrightarrow> (\<forall>a \<in> snd ` set items. \<forall>obj. heap mm a = Some obj \<longrightarrow>
        ref_count obj = 1 \<longrightarrow> heap mm' a = None)))"

definition step_post :: "'v memory_manager \<Rightarrow> 'v mm_op \<Rightarrow> 'v memory_manager \<Rightarrow> bool" where
  "step_post mm op mm' =
     (heap_ok mm' \<and> frames_ok mm' \<and> next_addr mm \<le> next_addr mm' \<and>
      (\<forall>a. heap mm a = None \<longrightarrow> a < next_addr mm \<longrightarrow> heap mm' a = None) \<and>
      (\<forall>a obj. heap mm a = Some obj \<longrightarrow> heap mm' a = None \<longrightarrow>
         ref_count obj = 1 \<and>
         (op = Dec_ref a \<or>
          op = Pop_stack_frame \<and>
            (\<exists>frame rest. stack_frames mm = frame # rest \<and> a \<in> snd ` set frame))))"

unbundle bit_operations_syntax

section \<open>Python values and operators\<close>

text \<open>
  The values a literal or an IR constant holds: Python's \<^verbatim>\<open>int\<close>, \<^verbatim>\<open>bool\<close>,
  \<^verbatim>\<open>float\<close>, \<^verbatim>\<open>str\<close> and \<^verbatim>\<open>None\<close>. Floating-point numbers are not modelled:
  \<open>pyfloat\<close> is an unspecified type, and whatever Python computes with a float
  is asked of the parameter \<open>p\<close> (a \<open>py_prims\<close>) that the operations below take.
\<close>

typedecl pyfloat

datatype pyvalue = PInt int | PBool bool | PFloat pyfloat | PStr string | PNone

datatype pyop =
    Op_add | Op_sub | Op_mul | Op_truediv | Op_mod
  | Op_eq | Op_ne | Op_lt | Op_le | Op_gt | Op_ge
  | Op_and | Op_or

datatype pyerr =
    PyZeroDivisionError
  | PyTypeError
  | PyValueError string
  | PyOverflowError
  | PyAttributeError

text \<open>
  The AST of core/ast\_nodes.py: one constructor per node class, with the fields of its
  \<^verbatim>\<open>__init__\<close> in order and the source line and column last. An optional child
  (\<^verbatim>\<open>else_branch\<close>, the value of a \<^verbatim>\<open>return\<close>, an initializer) is an option.
\<close>

datatype ast =
    BinaryOpNode ast string ast int int
  | UnaryOpNode string ast int int
  | LiteralNode pyvalue int int
  | VariableNode string int int
  | CallNode ast "ast list" int int
  | IfNode ast ast "ast option" int int
  | WhileNode ast ast int int
  | ForNode ast ast ast ast int int
  | ReturnNode "ast option" int int
  | BlockNode "ast list" int int
  | FunctionDefNode string "string list" ast int int
  | VariableDeclNode string "ast option" int int
  | AssignmentNode ast ast int int
  | StructDefNode string "(string \<times> string option) list" int int
  | ImportNode string int int

text \<open>
  An \<^verbatim>\<open>Environment\<close> object is the address of its \<^verbatim>\<open>values\<close> dict, which is
  mutable and lives in the interpreter's store, and its \<^verbatim>\<open>parent\<close>, which is set at
  construction and never assigned again.
\<close>

datatype environment = Environment (env_addr: nat) (env_parent: "environment option")

text \<open>
  What a variable can hold at run time: a literal's value, a \<^verbatim>\<open>Function\<close> object
  (told apart from every other by a serial number, as Python compares such objects by
  identity; then its declaration and its closure), or an AST node
  (\<^verbatim>\<open>visit_struct_def\<close> binds the node itself).
\<close>

datatype rvalue =
    Basic pyvalue
  | Function nat ast "environment option"
  | Node ast

record py_prims =
  float_is_zero :: "pyfloat \<Rightarrow> bool"
  float_binop :: "pyop \<Rightarrow> pyvalue \<Rightarrow> pyvalue \<Rightarrow> pyerr + pyvalue"
  float_neg :: "pyfloat \<Rightarrow> pyfloat"
  value_str :: "rvalue \<Rightarrow> string"
  str_format :: "string \<Rightarrow> pyvalue \<Rightarrow> pyerr + pyvalue"

text \<open>\<^verbatim>\<open>bool\<close> is a subclass of \<^verbatim>\<open>int\<close>: \<open>as_int\<close> is the integer of either.\<close>

fun as_int :: "pyvalue \<Rightarrow> int option" where
  "as_int (PInt i) = Some i"
| "as_int (PBool b) = Some (if b then 1 else 0)"
| "as_int v = None"

fun is_number :: "pyvalue \<Rightarrow> bool" where
  "is_number (PInt i) = True"
| "is_number (PBool b) = True"
| "is_number (PFloat f) = True"
| "is_number v = False"

text \<open>\<^verbatim>\<open>v == 0\<close> for a number \<open>v\<close>.\<close>

fun is_zero :: "py_prims \<Rightarrow> pyvalue \<Rightarrow> bool" where
  "is_zero p (PInt i) = (i = 0)"
| "is_zero p (PBool b) = (\<not> b)"
| "is_zero p (PFloat f) = float_is_zero p f"
| "is_zero p v = False"

text \<open>Python compares strings by code point; on UTF-8 bytes that is the byte order.\<close>

fun str_less :: "string \<Rightarrow> string \<Rightarrow> bool" where
  "str_less [] [] = False"
| "str_less [] (c # cs) = True"
| "str_less (c # cs) [] = False"
| "str_less (c # cs) (d # ds) =
     (if (of_char c :: nat) < of_char d then True
      else if (of_char d :: nat) < of_char c then False
      else str_less cs ds)"

definition py_compare :: "pyop \<Rightarrow> int \<Rightarrow> int \<Rightarrow> bool" where
  "py_compare op x y =
     (if op = Op_lt then x < y else if op = Op_le then x \<le> y
      else if op = Op_gt then x > y else x \<ge> y)"

definition str_compare :: "pyop \<Rightarrow> string \<Rightarrow> string \<Rightarrow> bool" where
  "str_compare op s t =
     (if op = Op_lt then str_less s t else if op = Op_le then \<not> str_less t s
      else if op = Op_gt then str_less t s else \<not> str_less s t)"

text \<open>
  The functions of Python's \<^verbatim>\<open>operator\<close> module on these values. Two ints (or
  bools) are computed exactly; \<^verbatim>\<open>/\<close> and \<^verbatim>\<open>%\<close> raise ZeroDivisionError on a zero
  divisor; a true division and every operation with a float operand go to
  \<open>float_binop\<close>; \<^verbatim>\<open>str % x\<close> goes to \<open>str_format\<close>; \<^verbatim>\<open>and_\<close> and
  \<^verbatim>\<open>or_\<close> are the bitwise \<^verbatim>\<open>&\<close> and \<^verbatim>\<open>|\<close>.
\<close>

fun py_equal :: "py_prims \<Rightarrow> pyvalue \<Rightarrow> pyvalue \<Rightarrow> bool" where
  "py_equal p (PStr s) (PStr t) = (s = t)"
| "py_equal p PNone PNone = True"
| "py_equal p a b =
     (if is_number a \<and> is_number b then
        (case (as_int a, as_int b) of
           (Some x, Some y) \<Rightarrow> x = y
         | _ \<Rightarrow> if is_zero p b then is_zero p a
                else if is_zero p a then False
                else float_binop p Op_eq a b = Inr (PBool True))
      else False)"

definition py_binop :: "py_prims \<Rightarrow> pyop \<Rightarrow> pyvalue \<Rightarrow> pyvalue \<Rightarrow> pyerr + pyvalue" where
  "py_binop p op a b =
     (if op = Op_eq then Inr (PBool (py_equal p a b))
      else if op = Op_ne then Inr (PBool (\<not> py_equal p a b))
      else if op = Op_and \<or> op = Op_or then
        (case (a, b) of
           (PBool x, PBool y) \<Rightarrow> Inr (PBool (if op = Op_and then x \<and> y else x \<or> y))
         | _ \<Rightarrow>
           (case (as_int a, as_int b) of
              (Some x, Some y) \<Rightarrow> Inr (PInt (if op = Op_and then x AND y else x OR y))
            | _ \<Rightarrow> Inl PyTypeError))
      else if is_number a \<and> is_number b then
        (if (op = Op_truediv \<or> op = Op_mod) \<and> is_zero p b then Inl PyZeroDivisionError
         else
           (case (as_int a, as_int b) of
              (Some x, Some y) \<Rightarrow>
                if op = Op_add then Inr (PInt (x + y))
                else if op = Op_sub then Inr (PInt (x - y))
                else if op = Op_mul then Inr (PInt (x * y))
                else if op = Op_mod then Inr (PInt (x mod y))
                else if op = Op_truediv then float_binop p op a b
                else Inr (PBool (py_compare op x y))
            | _ \<Rightarrow> float_binop p op a b))
      else
        (case (a, b) of
           (PStr s, PStr t) \<Rightarrow>
             if op = Op_add then Inr (PStr (s @ t))
             else if op = Op_mod then str_format p s b
             else if op = Op_lt \<or> op = Op_le \<or> op = Op_gt \<or> op = Op_ge
               then Inr (PBool (str_compare op s t))
             else Inl PyTypeError
         | (PStr s, _) \<Rightarrow>
             if op = Op_mod then str_format p s b
             else if op = Op_mul then
               (case as_int b of
                  Some n \<Rightarrow> Inr (PStr (concat (replicate (nat n) s)))
                | None \<Rightarrow> Inl PyTypeError)
             else Inl PyTypeError
         | (_, PStr s) \<Rightarrow>
             if op = Op_mul then
               (case as_int a of
                  Some n \<Rightarrow> Inr (PStr (concat (replicate (nat n) s)))
                | None \<Rightarrow> Inl PyTypeError)
             else Inl PyTypeError
         | _ \<Rightarrow> Inl PyTypeError))"

text \<open>A table for programs without floats and without \<^verbatim>\<open>%\<close> on strings.\<close>

definition float_free :: py_prims where
  "float_free =
     \<lparr>float_is_zero = (\<lambda>f. False),
      float_binop = (\<lambda>op a b. Inl PyOverflowError),
      float_neg = (\<lambda>f. f),
      value_str = (\<lambda>v. ''<object>''),
      str_format = (\<lambda>s v. Inl PyTypeError)\<rparr>"

section \<open>The tree-walking interpreter (core/interpreter.py)\<close>

text \<open>
  The classes \<^verbatim>\<open>RuntimeError\<close>, \<^verbatim>\<open>ReturnException\<close>, \<^verbatim>\<open>Environment\<close> and
  \<^verbatim>\<open>TypeChecker\<close> are the ones defined at the end of interpreter.py.
\<close>

datatype exc =
    RuntimeError string "int option" "int option"
  | ReturnException rvalue
  | PyError pyerr

record interpreter =
  env_values :: "nat \<Rightarrow> rvalue dict"
  next_env :: nat
  env :: "environment option"
  global_env :: environment
  next_function :: nat
  stdout :: "string list"

type_synonym 'a outcome = "(exc + 'a) \<times> interpreter"

text \<open>\<^verbatim>\<open>Environment(parent=...)\<close>: a new object with an empty dict.\<close>

definition Environment_new ::
  "interpreter \<Rightarrow> environment option \<Rightarrow> environment \<times> interpreter" where
  "Environment_new st par =
     (Environment (next_env st) par,
      st\<lparr>env_values := (env_values st)(next_env st := []), next_env := next_env st + 1\<rparr>)"

definition Interpreter_init :: interpreter where
  "Interpreter_init =
     \<lparr>env_values = (\<lambda>a. []), next_env = 1, env = Some (Environment 0 None),
      global_env = Environment 0 None, next_function = 0, stdout = []\<rparr>"

definition Environment_define ::
  "interpreter \<Rightarrow> environment \<Rightarrow> string \<Rightarrow> rvalue \<Rightarrow> interpreter" where
  "Environment_define st e nm v =
     st\<lparr>env_values := (env_values st)(env_addr e := dict_set (env_values st (env_addr e)) nm v)\<rparr>"

fun Environment_assign ::
  "interpreter \<Rightarrow> environment \<Rightarrow> string \<Rightarrow> rvalue \<Rightarrow> bool \<times> interpreter" where
  "Environment_assign st (Environment a par) nm v =
     (if dict_has (env_values st a) nm
      then (True, st\<lparr>env_values := (env_values st)(a := dict_set (env_values st a) nm v)\<rparr>)
      else (case par of
              Some p \<Rightarrow> Environment_assign st p nm v
            | None \<Rightarrow> (False, st)))"

fun Environment_get :: "interpreter \<Rightarrow> environment \<Rightarrow> string \<Rightarrow> rvalue" where
  "Environment_get st (Environment a par) nm =
     (case map_of (env_values st a) nm of
        Some v \<Rightarrow> v
      | None \<Rightarrow>
          (case par of
             Some p \<Rightarrow> Environment_get st p nm
           | None \<Rightarrow> Basic PNone))"

definition push_env :: "interpreter \<Rightarrow> interpreter" where
  "push_env st = (case Environment_new st (env st) of (e, st') \<Rightarrow> st'\<lparr>env := Some e\<rparr>)"

text \<open>\<^verbatim>\<open>self.env = self.env.parent\<close>; on \<^verbatim>\<open>None\<close> the attribute access raises.\<close>

definition pop_env :: "interpreter \<Rightarrow> exc + interpreter" where
  "pop_env st =
     (case env st of
        None \<Rightarrow> Inl (PyError PyAttributeError)
      | Some e \<Rightarrow> Inr (st\<lparr>env := env_parent e\<rparr>))"

text \<open>
  A \<^verbatim>\<open>finally: self.pop_env()\<close>: the outcome of the \<^verbatim>\<open>try\<close> body stands unless
  \<^verbatim>\<open>pop_env\<close> itself raises.
\<close>

definition finally_pop_env :: "'a outcome \<Rightarrow> 'a outcome" where
  "finally_pop_env r =
     (case pop_env (snd r) of
        Inl e \<Rightarrow> (Inl e, snd r)
      | Inr st' \<Rightarrow> (fst r, st'))"

text \<open>Python's truth value of an object, and \<^verbatim>\<open>callable\<close>: none of the values has \<^verbatim>\<open>__call__\<close>
  (the class \<^verbatim>\<open>Function\<close> defines the method \<^verbatim>\<open>call\<close>).\<close>

fun truthy :: "py_prims \<Rightarrow> rvalue \<Rightarrow> bool" where
  "truthy p (Basic (PInt i)) = (i \<noteq> 0)"
| "truthy p (Basic (PBool b)) = b"
| "truthy p (Basic (PFloat f)) = (\<not> float_is_zero p f)"
| "truthy p (Basic (PStr s)) = (s \<noteq> [])"
| "truthy p (Basic PNone) = False"
| "truthy p (Function i d c) = True"
| "truthy p (Node n) = True"

fun callable :: "rvalue \<Rightarrow> bool" where
  "callable (Basic v) = False"
| "callable (Function i d c) = False"
| "callable (Node n) = False"

text \<open>\<^verbatim>\<open>a == b\<close> on run-time values; objects other than literals' values compare by identity.\<close>

fun value_equal :: "py_prims \<Rightarrow> rvalue \<Rightarrow> rvalue \<Rightarrow> bool" where
  "value_equal p (Basic a) (Basic b) = py_equal p a b"
| "value_equal p (Function i d c) (Function j d' c') = (i = j)"
| "value_equal p (Node n) (Node m) = (n = m)"
| "value_equal p a b = False"

text \<open>An arithmetic or comparison operator of Python on run-time values.\<close>

fun value_binop :: "py_prims \<Rightarrow> pyop \<Rightarrow> rvalue \<Rightarrow> rvalue \<Rightarrow> exc + rvalue" where
  "value_binop p op (Basic a) (Basic b) =
     (case py_binop p op a b of Inl e \<Rightarrow> Inl (PyError e) | Inr v \<Rightarrow> Inr (Basic v))"
| "value_binop p op a b = Inl (PyError PyTypeError)"

text \<open>\<^verbatim>\<open>TypeChecker.check_numeric\<close>: \<^verbatim>\<open>isinstance(left, (int, float)) and
  (right is None or isinstance(right, (int, float)))\<close>.\<close>

fun is_numeric :: "rvalue \<Rightarrow> bool" where
  "is_numeric (Basic v) = is_number v"
| "is_numeric v = False"

definition check_numeric :: "rvalue \<Rightarrow> rvalue \<Rightarrow> int \<Rightarrow> int \<Rightarrow> exc + unit" where
  "check_numeric left right line column =
     (if \<not> (is_numeric left \<and> (right = Basic PNone \<or> is_numeric right))
      then Inl (RuntimeError ''Operands must be numeric'' (Some line) (Some column))
      else Inr ())"

definition checked_binop ::
  "py_prims \<Rightarrow> pyop \<Rightarrow> rvalue \<Rightarrow> rvalue \<Rightarrow> int \<Rightarrow> int \<Rightarrow> exc + rvalue" where
  "checked_binop p op left right line column =
     (case check_numeric left right line column of
        Inl e \<Rightarrow> Inl e
      | Inr u \<Rightarrow> value_binop p op left right)"

text \<open>The body of \<^verbatim>\<open>visit_binary_op\<close> once both operands are evaluated.\<close>

definition binary_op ::
  "py_prims \<Rightarrow> string \<Rightarrow> rvalue \<Rightarrow> rvalue \<Rightarrow> int \<Rightarrow> int \<Rightarrow> exc + rvalue" where
  "binary_op p op left right line column =
     (if op = ''+'' then checked_binop p Op_add left right line column
      else if op = ''-'' then checked_binop p Op_sub left right line column
      else if op = ''*'' then checked_binop p Op_mul left right line column
      else if op = ''/'' then
        (case check_numeric left right line column of
           Inl e \<Rightarrow> Inl e
         | Inr u \<Rightarrow>
             if value_equal p right (Basic (PInt 0))
             then Inl (RuntimeError ''Division by zero'' (Some line) (Some column))
             else value_binop p Op_truediv left right)
      else if op = ''=='' then Inr (Basic (PBool (value_equal p left right)))
      else if op = ''!='' then Inr (Basic (PBool (\<not> value_equal p left right)))
      else if op = ''<'' then checked_binop p Op_lt left right line column
      else if op = ''<='' then checked_binop p Op_le left right line column
      else if op = ''>'' then checked_binop p Op_gt left right line column
      else if op = ''>='' then checked_binop p Op_ge left right line column
      else if op = ''&&'' then Inr (Basic (PBool (truthy p left \<and> truthy p right)))
      else if op = ''||'' then Inr (Basic (PBool (truthy p left \<or> truthy p right)))
      else Inl (RuntimeError (''Unknown binary operator '' @ [CHR 0x27] @ op @ [CHR 0x27])
                  (Some line) (Some column)))"

definition negate :: "py_prims \<Rightarrow> rvalue \<Rightarrow> exc + rvalue" where
  "negate p v =
     (case v of
        Basic (PFloat f) \<Rightarrow> Inr (Basic (PFloat (float_neg p f)))
      | Basic b \<Rightarrow>
          (case as_int b of Some i \<Rightarrow> Inr (Basic (PInt (- i))) | None \<Rightarrow> Inl (PyError PyTypeError))
      | _ \<Rightarrow> Inl (PyError PyTypeError))"

definition unary_op :: "py_prims \<Rightarrow> string \<Rightarrow> rvalue \<Rightarrow> int \<Rightarrow> int \<Rightarrow> exc + rvalue" where
  "unary_op p op operand line column =
     (if op = ''-'' then
        (case check_numeric operand (Basic PNone) line column of
           Inl e \<Rightarrow> Inl e
         | Inr u \<Rightarrow> negate p operand)
      else if op = ''!'' then Inr (Basic (PBool (\<not> truthy p operand)))
      else Inl (RuntimeError (''Unknown unary operator '' @ [CHR 0x27] @ op @ [CHR 0x27])
                  (Some line) (Some column)))"

text \<open>
  \<open>acc node st\<close> stands for \<^verbatim>\<open>node.accept(interpreter)\<close>: its outcome and the
  interpreter it leaves, or \<open>None\<close> when the evaluation does not end within the
  recursion depth the interpreter is run with. The visitors take it as an argument;
  \<open>accept\<close> below ties the knot.
\<close>

type_synonym dispatch = "ast \<Rightarrow> interpreter \<Rightarrow> rvalue outcome option"

text \<open>\<^verbatim>\<open>[arg.accept(self) for arg in node.arguments]\<close>\<close>

fun accept_all :: "dispatch \<Rightarrow> ast list \<Rightarrow> interpreter \<Rightarrow> (rvalue list) outcome option" where
  "accept_all acc [] st = Some (Inr [], st)"
| "accept_all acc (a # as) st =
     (case acc a st of
        None \<Rightarrow> None
      | Some (Inl e, st') \<Rightarrow> Some (Inl e, st')
      | Some (Inr v, st') \<Rightarrow>
          (case accept_all acc as st' of
             None \<Rightarrow> None
           | Some (Inl e, st'') \<Rightarrow> Some (Inl e, st'')
           | Some (Inr vs, st'') \<Rightarrow> Some (Inr (v # vs), st'')))"

text \<open>\<^verbatim>\<open>for stmt in node.statements: stmt.accept(self)\<close>\<close>

fun accept_each :: "dispatch \<Rightarrow> ast list \<Rightarrow> interpreter \<Rightarrow> rvalue outcome option" where
  "accept_each acc [] st = Some (Inr (Basic PNone), st)"
| "accept_each acc (s # ss) st =
     (case acc s st of
        None \<Rightarrow> None
      | Some (Inl e, st') \<Rightarrow> Some (Inl e, st')
      | Some (Inr v, st') \<Rightarrow> accept_each acc ss st')"

text \<open>
  \<^verbatim>\<open>Function.call\<close>. The new environment is made before the arity test; the
  \<^verbatim>\<open>try\<close> starts at \<^verbatim>\<open>interpreter.push_env()\<close>, whose environment is overwritten at
  once by \<^verbatim>\<open>interpreter.env = env\<close>.
\<close>

definition Function_call ::
  "dispatch \<Rightarrow> rvalue \<Rightarrow> interpreter \<Rightarrow> rvalue list \<Rightarrow> rvalue outcome option" where
  "Function_call acc self st arguments =
     (case self of
        Function fid (FunctionDefNode fname params body line column) closure \<Rightarrow>
          (case Environment_new st closure of
             (e, st1) \<Rightarrow>
               if length arguments \<noteq> length params
               then Some (Inl (RuntimeError
                              (''Expected '' @ str_int (int (length params)) @
                               '' arguments but got '' @ str_int (int (length arguments)))
                              (Some line) (Some column)), st1)
               else
                 (let st2 = fold (\<lambda>(nm, v) s. Environment_define s e nm v)
                                 (zip params arguments) st1;
                      st3 = (push_env st2)\<lparr>env := Some e\<rparr>
                  in case acc body st3 of
                       None \<Rightarrow> None
                     | Some (Inl (ReturnException v), st4) \<Rightarrow>
                         Some (finally_pop_env (Inr v, st4))
                     | Some (Inl e', st4) \<Rightarrow> Some (finally_pop_env (Inl e', st4))
                     | Some (Inr v, st4) \<Rightarrow> Some (finally_pop_env (Inr (Basic PNone), st4))))
      | _ \<Rightarrow> Some (Inl (PyError PyAttributeError), st))"

text \<open>The names of the node classes that have a \<^verbatim>\<open>name\<close> attribute.\<close>

fun node_name :: "ast \<Rightarrow> string option" where
  "node_name (VariableNode nm l c) = Some nm"
| "node_name (FunctionDefNode nm ps b l c) = Some nm"
| "node_name (VariableDeclNode nm i l c) = Some nm"
| "node_name (StructDefNode nm fs l c) = Some nm"
| "node_name n = None"

definition undefined_variable :: "string \<Rightarrow> int \<Rightarrow> int \<Rightarrow> exc" where
  "undefined_variable nm line column =
     RuntimeError (''Undefined variable '' @ [CHR 0x27] @ nm @ [CHR 0x27])
       (Some line) (Some column)"

definition visit_variable :: "string \<Rightarrow> int \<Rightarrow> int \<Rightarrow> interpreter \<Rightarrow> rvalue outcome" where
  "visit_variable nm line column st =
     (case env st of
        None \<Rightarrow> (Inl (PyError PyAttributeError), st)
      | Some e \<Rightarrow>
          (let v = Environment_get st e nm
           in if v = Basic PNone then (Inl (undefined_variable nm line column), st)
              else (Inr v, st)))"

definition define_current :: "string \<Rightarrow> rvalue \<Rightarrow> interpreter \<Rightarrow> rvalue outcome" where
  "define_current nm v st =
     (case env st of
        None \<Rightarrow> (Inl (PyError PyAttributeError), st)
      | Some e \<Rightarrow> (Inr (Basic PNone), Environment_define st e nm v))"

definition visit_variable_decl ::
  "dispatch \<Rightarrow> string \<Rightarrow> ast option \<Rightarrow> interpreter \<Rightarrow> rvalue outcome option" where
  "visit_variable_decl acc nm initializer st =
     (case initializer of
        None \<Rightarrow> Some (define_current nm (Basic PNone) st)
      | Some i \<Rightarrow>
          (case acc i st of
             None \<Rightarrow> None
           | Some (Inl e, st') \<Rightarrow> Some (Inl e, st')
           | Some (Inr v, st') \<Rightarrow> Some (define_current nm v st')))"

definition visit_binary_op ::
  "py_prims \<Rightarrow> dispatch \<Rightarrow> ast \<Rightarrow> string \<Rightarrow> ast \<Rightarrow> int \<Rightarrow> int \<Rightarrow> interpreter \<Rightarrow>
   rvalue outcome option" where
  "visit_binary_op p acc left op right line column st =
     (case acc left st of
        None \<Rightarrow> None
      | Some (Inl e, st') \<Rightarrow> Some (Inl e, st')
      | Some (Inr l, st') \<Rightarrow>
          (case acc right st' of
             None \<Rightarrow> None
           | Some (Inl e, st'') \<Rightarrow> Some (Inl e, st'')
           | Some (Inr r, st'') \<Rightarrow> Some (binary_op p op l r line column, st'')))"

definition visit_unary_op ::
  "py_prims \<Rightarrow> dispatch \<Rightarrow> string \<Rightarrow> ast \<Rightarrow> int \<Rightarrow> int \<Rightarrow> interpreter \<Rightarrow>
   rvalue outcome option" where
  "visit_unary_op p acc op operand line column st =
     (case acc operand st of
        None \<Rightarrow> None
      | Some (Inl e, st') \<Rightarrow> Some (Inl e, st')
      | Some (Inr v, st') \<Rightarrow> Some (unary_op p op v line column, st'))"

text \<open>
  \<^verbatim>\<open>visit_call\<close>: a \<^verbatim>\<open>RuntimeError\<close> out of \<^verbatim>\<open>callee.call\<close> is raised again with
  the position of the call.
\<close>

definition visit_call ::
  "py_prims \<Rightarrow> dispatch \<Rightarrow> ast \<Rightarrow> ast list \<Rightarrow> int \<Rightarrow> int \<Rightarrow> interpreter \<Rightarrow>
   rvalue outcome option" where
  "visit_call p acc callee arguments line column st =
     (case acc callee st of
        None \<Rightarrow> None
      | Some (Inl e, st') \<Rightarrow> Some (Inl e, st')
      | Some (Inr f, st') \<Rightarrow>
          if \<not> callable f
          then Some (Inl (RuntimeError
                 (''Attempted to call non-function '' @ [CHR 0x27] @ value_str p f @ [CHR 0x27])
                 (Some line) (Some column)), st')
          else
            (case accept_all acc arguments st' of
               None \<Rightarrow> None
             | Some (Inl e, st'') \<Rightarrow> Some (Inl e, st'')
             | Some (Inr args, st'') \<Rightarrow>
                 (case Function_call acc f st'' args of
                    None \<Rightarrow> None
                  | Some (Inl (RuntimeError msg l c), st3) \<Rightarrow>
                      Some (Inl (RuntimeError msg (Some line) (Some column)), st3)
                  | Some r \<Rightarrow> Some r)))"

definition visit_assignment ::
  "dispatch \<Rightarrow> ast \<Rightarrow> ast \<Rightarrow> int \<Rightarrow> int \<Rightarrow> interpreter \<Rightarrow> rvalue outcome option" where
  "visit_assignment acc target val line column st =
     (case acc val st of
        None \<Rightarrow> None
      | Some (Inl e, st') \<Rightarrow> Some (Inl e, st')
      | Some (Inr v, st') \<Rightarrow>
          (case env st' of
             None \<Rightarrow> Some (Inl (PyError PyAttributeError), st')
           | Some e \<Rightarrow>
               (case node_name target of
                  None \<Rightarrow> Some (Inl (PyError PyAttributeError), st')
                | Some nm \<Rightarrow>
                    (case Environment_assign st' e nm v of
                       (True, st'') \<Rightarrow> Some (Inr (Basic PNone), st'')
                     | (False, st'') \<Rightarrow>
                         (case node_name target of
                            None \<Rightarrow> Some (Inl (PyError PyAttributeError), st'')
                          | Some nm' \<Rightarrow>
                              Some (Inl (undefined_variable nm' line column), st''))))))"

definition visit_block :: "dispatch \<Rightarrow> ast list \<Rightarrow> interpreter \<Rightarrow> rvalue outcome option" where
  "visit_block acc statements st =
     (case accept_each acc statements (push_env st) of
        None \<Rightarrow> None
      | Some (Inl e, st') \<Rightarrow> Some (finally_pop_env (Inl e, st'))
      | Some (Inr v, st') \<Rightarrow> Some (finally_pop_env (Inr (Basic PNone), st')))"

definition visit_if ::
  "py_prims \<Rightarrow> dispatch \<Rightarrow> ast \<Rightarrow> ast \<Rightarrow> ast option \<Rightarrow> interpreter \<Rightarrow>
   rvalue outcome option" where
  "visit_if p acc condition then_branch else_branch st =
     (case acc condition st of
        None \<Rightarrow> None
      | Some (Inl e, st') \<Rightarrow> Some (Inl e, st')
      | Some (Inr c, st') \<Rightarrow>
          if truthy p c then
            (case acc then_branch st' of
               None \<Rightarrow> None
             | Some (Inl e, st'') \<Rightarrow> Some (Inl e, st'')
             | Some (Inr v, st'') \<Rightarrow> Some (Inr (Basic PNone), st''))
          else
            (case else_branch of
               None \<Rightarrow> Some (Inr (Basic PNone), st')
             | Some eb \<Rightarrow>
                 (case acc eb st' of
                    None \<Rightarrow> None
                  | Some (Inl e, st'') \<Rightarrow> Some (Inl e, st'')
                  | Some (Inr v, st'') \<Rightarrow> Some (Inr (Basic PNone), st''))))"

text \<open>
  The \<^verbatim>\<open>while\<close> loops of \<^verbatim>\<open>visit_while\<close> and \<^verbatim>\<open>visit_for\<close> (the latter runs
  the increment after the body): at most \<open>k\<close> tests of the condition, \<open>None\<close> when
  the loop has not ended by then.
\<close>

fun while_loop ::
  "nat \<Rightarrow> py_prims \<Rightarrow> dispatch \<Rightarrow> ast \<Rightarrow> ast list \<Rightarrow> interpreter \<Rightarrow> rvalue outcome option" where
  "while_loop 0 p acc condition body st = None"
| "while_loop (Suc k) p acc condition body st =
     (case acc condition st of
        None \<Rightarrow> None
      | Some (Inl e, st') \<Rightarrow> Some (Inl e, st')
      | Some (Inr c, st') \<Rightarrow>
          if truthy p c then
            (case accept_each acc body st' of
               None \<Rightarrow> None
             | Some (Inl e, st'') \<Rightarrow> Some (Inl e, st'')
             | Some (Inr v, st'') \<Rightarrow> while_loop k p acc condition body st'')
          else Some (Inr (Basic PNone), st'))"

definition visit_while ::
  "nat \<Rightarrow> py_prims \<Rightarrow> dispatch \<Rightarrow> ast \<Rightarrow> ast \<Rightarrow> interpreter \<Rightarrow> rvalue outcome option" where
  "visit_while k p acc condition body st = while_loop k p acc condition [body] st"

definition visit_for ::
  "nat \<Rightarrow> py_prims \<Rightarrow> dispatch \<Rightarrow> ast \<Rightarrow> ast \<Rightarrow> ast \<Rightarrow> ast \<Rightarrow> interpreter \<Rightarrow>
   rvalue outcome option" where
  "visit_for k p acc initializer condition increment body st =
     (case acc initializer (push_env st) of
        None \<Rightarrow> None
      | Some (Inl e, st') \<Rightarrow> Some (finally_pop_env (Inl e, st'))
      | Some (Inr v, st') \<Rightarrow>
          (case while_loop k p acc condition [body, increment] st' of
             None \<Rightarrow> None
           | Some r \<Rightarrow> Some (finally_pop_env r)))"

definition visit_return :: "dispatch \<Rightarrow> ast option \<Rightarrow> interpreter \<Rightarrow> rvalue outcome option" where
  "visit_return acc val st =
     (case val of
        None \<Rightarrow> Some (Inl (ReturnException (Basic PNone)), st)
      | Some v \<Rightarrow>
          (case acc v st of
             None \<Rightarrow> None
           | Some (Inl e, st') \<Rightarrow> Some (Inl e, st')
           | Some (Inr r, st') \<Rightarrow> Some (Inl (ReturnException r), st')))"

definition visit_function_def :: "ast \<Rightarrow> string \<Rightarrow> interpreter \<Rightarrow> rvalue outcome" where
  "visit_function_def node nm st =
     define_current nm (Function (next_function st) node (env st))
       (st\<lparr>next_function := next_function st + 1\<rparr>)"

definition visit_import :: "string \<Rightarrow> interpreter \<Rightarrow> rvalue outcome" where
  "visit_import module_name st =
     (Inr (Basic PNone),
      st\<lparr>stdout := stdout st @ [''Importing module '' @ module_name @ '' (not implemented)'']\<rparr>)"

text \<open>
  \<^verbatim>\<open>node.accept(visitor)\<close> with the children evaluated by \<open>acc\<close>, and \<open>accept\<close>
  itself: \<open>accept p n\<close> runs a node with recursion depth at most \<open>n\<close> (the same
  \<open>n\<close> bounds the iterations of each loop).
\<close>

fun visit :: "nat \<Rightarrow> py_prims \<Rightarrow> dispatch \<Rightarrow> ast \<Rightarrow> interpreter \<Rightarrow> rvalue outcome option" where
  "visit k p acc (BinaryOpNode left op right l c) st = visit_binary_op p acc left op right l c st"
| "visit k p acc (UnaryOpNode op operand l c) st = visit_unary_op p acc op operand l c st"
| "visit k p acc (LiteralNode v l c) st = Some (Inr (Basic v), st)"
| "visit k p acc (VariableNode nm l c) st = Some (visit_variable nm l c st)"
| "visit k p acc (CallNode callee arguments l c) st = visit_call p acc callee arguments l c st"
| "visit k p acc (IfNode condition then_branch else_branch l c) st =
     visit_if p acc condition then_branch else_branch st"
| "visit k p acc (WhileNode condition body l c) st = visit_while k p acc condition body st"
| "visit k p acc (ForNode initializer condition increment body l c) st =
     visit_for k p acc initializer condition increment body st"
| "visit k p acc (ReturnNode v l c) st = visit_return acc v st"
| "visit k p acc (BlockNode statements l c) st = visit_block acc statements st"
| "visit k p acc (FunctionDefNode nm params body l c) st =
     Some (visit_function_def (FunctionDefNode nm params body l c) nm st)"
| "visit k p acc (VariableDeclNode nm initializer l c) st = visit_variable_decl acc nm initializer st"
| "visit k p acc (AssignmentNode target v l c) st = visit_assignment acc target v l c st"
| "visit k p acc (StructDefNode nm flds l c) st =
     Some (define_current nm (Node (StructDefNode nm flds l c)) st)"
| "visit k p acc (ImportNode module_name l c) st = Some (visit_import module_name st)"

fun accept :: "py_prims \<Rightarrow> nat \<Rightarrow> dispatch" where
  "accept p 0 = (\<lambda>node st. None)"
| "accept p (Suc n) = visit n p (accept p n)"

definition call ::
  "py_prims \<Rightarrow> nat \<Rightarrow> rvalue \<Rightarrow> interpreter \<Rightarrow> rvalue list \<Rightarrow> rvalue outcome option" where
  "call p n self st arguments = Function_call (accept p n) self st arguments"

section \<open>The IR and its optimizer (ir/ir\_nodes.py, ir/ir\_optimizer.py)\<close>

datatype NodeType =
    FUNCTION | VARIABLE | ASSIGNMENT | IF | WHILE | EXPRESSION
  | CALL | RETURN | CONSTANT | BINARY_OP | UNARY_OP | BLOCK

text \<open>
  IR nodes are mutable objects that the optimizer updates in place and that can be
  reached along several paths (a \<^verbatim>\<open>BinaryOpNode\<close> holds its operands both in
  \<^verbatim>\<open>children\<close> and in \<^verbatim>\<open>left\<close> and \<^verbatim>\<open>right\<close>), so they live in a store
  and refer to each other by address. The class of an object carries the attributes its
  \<^verbatim>\<open>__init__\<close> adds to the three of \<^verbatim>\<open>IRNode\<close>; \<open>IR_Node\<close> is a direct
  instance of \<^verbatim>\<open>IRNode\<close>.
\<close>

datatype ir_class =
    IR_Node NodeType
  | IR_FunctionNode string "string list" "string option"
  | IR_VariableNode string "string option"
  | IR_AssignmentNode nat nat
  | IR_IfNode nat "nat list" "nat list"
  | IR_WhileNode nat "nat list"
  | IR_ExpressionNode string pyvalue
  | IR_CallNode string "nat list"
  | IR_ReturnNode "nat option"
  | IR_ConstantNode pyvalue "string option"
  | IR_BinaryOpNode string nat nat
  | IR_UnaryOpNode string nat
  | IR_BlockNode "nat list"

record ir_node =
  cls :: ir_class
  children :: "nat list"
  ir_metadata :: "pyvalue dict"

record ir_store =
  objects :: "nat \<Rightarrow> ir_node"
  next_node :: nat

fun class_node_type :: "ir_class \<Rightarrow> NodeType" where
  "class_node_type (IR_Node t) = t"
| "class_node_type (IR_FunctionNode nm ps rt) = FUNCTION"
| "class_node_type (IR_VariableNode nm vt) = VARIABLE"
| "class_node_type (IR_AssignmentNode t v) = ASSIGNMENT"
| "class_node_type (IR_IfNode c t e) = IF"
| "class_node_type (IR_WhileNode c b) = WHILE"
| "class_node_type (IR_ExpressionNode et v) = EXPRESSION"
| "class_node_type (IR_CallNode f as) = CALL"
| "class_node_type (IR_ReturnNode v) = RETURN"
| "class_node_type (IR_ConstantNode v t) = CONSTANT"
| "class_node_type (IR_BinaryOpNode op l r) = EXPRESSION"
| "class_node_type (IR_UnaryOpNode op x) = EXPRESSION"
| "class_node_type (IR_BlockNode ss) = BLOCK"

definition node_type :: "ir_store \<Rightarrow> nat \<Rightarrow> NodeType" where
  "node_type s a = class_node_type (cls (objects s a))"

definition set_children :: "ir_store \<Rightarrow> nat \<Rightarrow> nat list \<Rightarrow> ir_store" where
  "set_children s a cs = s\<lparr>objects := (objects s)(a := (objects s a)\<lparr>children := cs\<rparr>)\<rparr>"

text \<open>The constructors: \<^verbatim>\<open>IRNode.__init__\<close> with the children each class passes.\<close>

definition new_node ::
  "ir_store \<Rightarrow> ir_class \<Rightarrow> nat list \<Rightarrow> pyvalue dict \<Rightarrow> nat \<times> ir_store" where
  "new_node s c cs md =
     (next_node s,
      s\<lparr>objects := (objects s)(next_node s := \<lparr>cls = c, children = cs, ir_metadata = md\<rparr>),
        next_node := next_node s + 1\<rparr>)"

definition empty_store :: ir_store where
  "empty_store = \<lparr>objects = (\<lambda>a. \<lparr>cls = IR_Node BLOCK, children = [], ir_metadata = []\<rparr>),
                  next_node = 0\<rparr>"

definition new_ConstantNode :: "ir_store \<Rightarrow> pyvalue \<Rightarrow> string option \<Rightarrow> nat \<times> ir_store" where
  "new_ConstantNode s v const_type = new_node s (IR_ConstantNode v const_type) [] []"

definition new_BinaryOpNode :: "ir_store \<Rightarrow> string \<Rightarrow> nat \<Rightarrow> nat \<Rightarrow> nat \<times> ir_store" where
  "new_BinaryOpNode s op left right = new_node s (IR_BinaryOpNode op left right) [left, right] []"

definition new_IfNode :: "ir_store \<Rightarrow> nat \<Rightarrow> nat list \<Rightarrow> nat list \<Rightarrow> nat \<times> ir_store" where
  "new_IfNode s condition then_body else_body =
     new_node s (IR_IfNode condition then_body else_body)
       ([condition] @ then_body @ else_body) []"

definition new_WhileNode :: "ir_store \<Rightarrow> nat \<Rightarrow> nat list \<Rightarrow> nat \<times> ir_store" where
  "new_WhileNode s condition body = new_node s (IR_WhileNode condition body) ([condition] @ body) []"

definition new_ReturnNode :: "ir_store \<Rightarrow> nat option \<Rightarrow> nat \<times> ir_store" where
  "new_ReturnNode s v = new_node s (IR_ReturnNode v) (case v of Some a \<Rightarrow> [a] | None \<Rightarrow> []) []"

definition new_BlockNode :: "ir_store \<Rightarrow> nat list \<Rightarrow> nat \<times> ir_store" where
  "new_BlockNode s statements = new_node s (IR_BlockNode statements) statements []"

text \<open>Exceptions that leave the optimizer.\<close>

datatype ir_error = ValueError | IR_IndexError

type_synonym 'a ir_outcome = "(ir_error + 'a) \<times> ir_store"

type_synonym ir_pass = "ir_store \<Rightarrow> nat \<Rightarrow> nat ir_outcome option"

text \<open>The operator table of \<^verbatim>\<open>_evaluate_binary_op\<close>.\<close>

definition ops_table :: "string \<rightharpoonup> pyop" where
  "ops_table = map_of
     [(''+'', Op_add), (''-'', Op_sub), (''*'', Op_mul), (''/'', Op_truediv), (''%'', Op_mod),
      (''=='', Op_eq), (''!='', Op_ne), (''<'', Op_lt), (''<='', Op_le), (''>'', Op_gt),
      (''>='', Op_ge), (''and'', Op_and), (''or'', Op_or)]"

definition evaluate_binary_op ::
  "py_prims \<Rightarrow> string \<Rightarrow> pyvalue \<Rightarrow> pyvalue \<Rightarrow> pyerr + pyvalue" where
  "evaluate_binary_op p operator_str left_val right_val =
     (case ops_table operator_str of
        None \<Rightarrow> Inl (PyValueError (''Unsupported operator for folding: '' @ operator_str))
      | Some f \<Rightarrow> py_binop p f left_val right_val)"

text \<open>\<^verbatim>\<open>type(value).__name__\<close>\<close>

fun type_name :: "pyvalue \<Rightarrow> string" where
  "type_name (PInt i) = ''int''"
| "type_name (PBool b) = ''bool''"
| "type_name (PFloat f) = ''float''"
| "type_name (PStr s) = ''str''"
| "type_name PNone = ''NoneType''"

definition is_constant_node :: "ir_store \<Rightarrow> nat \<Rightarrow> bool" where
  "is_constant_node s a = (node_type s a = CONSTANT)"

text \<open>The \<^verbatim>\<open>value\<close> attribute of an object whose \<^verbatim>\<open>node_type\<close> is \<^verbatim>\<open>CONSTANT\<close>;
  a direct \<^verbatim>\<open>IRNode\<close> instance has none.\<close>

fun constant_value :: "ir_class \<Rightarrow> pyvalue option" where
  "constant_value (IR_ConstantNode v t) = Some v"
| "constant_value c = None"

text \<open>
  \<^verbatim>\<open>_fold_binary_op\<close>: the operands are read from \<^verbatim>\<open>node.left\<close> and
  \<^verbatim>\<open>node.right\<close>; every exception of the evaluation is caught and leaves the node.
\<close>

definition fold_binary_op :: "py_prims \<Rightarrow> ir_store \<Rightarrow> nat \<Rightarrow> nat \<times> ir_store" where
  "fold_binary_op p s node =
     (case cls (objects s node) of
        IR_BinaryOpNode op left right \<Rightarrow>
          if is_constant_node s left \<and> is_constant_node s right then
            (case (constant_value (cls (objects s left)), constant_value (cls (objects s right))) of
               (Some a, Some b) \<Rightarrow>
                 (case evaluate_binary_op p op a b of
                    Inr v \<Rightarrow> new_ConstantNode s v (Some (type_name v))
                  | Inl e \<Rightarrow> (node, s))
             | _ \<Rightarrow> (node, s))
          else (node, s)
      | _ \<Rightarrow> (node, s))"

text \<open>\<^verbatim>\<open>for child in ...: result.append(self.constant_folding_pass(child))\<close>\<close>

fun pass_all :: "ir_pass \<Rightarrow> nat list \<Rightarrow> ir_store \<Rightarrow> (nat list) ir_outcome option" where
  "pass_all f [] s = Some (Inr [], s)"
| "pass_all f (c # cs) s =
     (case f s c of
        None \<Rightarrow> None
      | Some (Inl e, s') \<Rightarrow> Some (Inl e, s')
      | Some (Inr c', s') \<Rightarrow>
          (case pass_all f cs s' of
             None \<Rightarrow> None
           | Some (Inl e, s'') \<Rightarrow> Some (Inl e, s'')
           | Some (Inr cs', s'') \<Rightarrow> Some (Inr (c' # cs'), s'')))"

text \<open>The second loop of the \<^verbatim>\<open>FUNCTION\<close> and \<^verbatim>\<open>BLOCK\<close> branches.\<close>

definition fold_again :: "ir_pass \<Rightarrow> ir_store \<Rightarrow> nat \<Rightarrow> nat ir_outcome option" where
  "fold_again f s node =
     (case pass_all f (children (objects s node)) s of
        None \<Rightarrow> None
      | Some (Inl e, s') \<Rightarrow> Some (Inl e, s')
      | Some (Inr cs, s') \<Rightarrow> Some (Inr node, set_children s' node cs))"

text \<open>
  The \<^verbatim>\<open>ASSIGNMENT\<close> branch: \<^verbatim>\<open>target, value = node.children\<close> raises
  ValueError unless there are two children (its message is the Python runtime's and is
  left out); the value is folded once more and stored in \<^verbatim>\<open>node.children[1]\<close>.
\<close>

definition fold_assignment :: "ir_pass \<Rightarrow> ir_store \<Rightarrow> nat \<Rightarrow> nat ir_outcome option" where
  "fold_assignment f s node =
     (case children (objects s node) of
        [target, val] \<Rightarrow>
          (case f s val of
             None \<Rightarrow> None
           | Some (Inl e, s') \<Rightarrow> Some (Inl e, s')
           | Some (Inr folded_value, s') \<Rightarrow>
               if 1 < length (children (objects s' node))
               then Some (Inr node,
                          set_children s' node ((children (objects s' node))[1 := folded_value]))
               else Some (Inl IR_IndexError, s'))
      | cs \<Rightarrow> Some (Inl ValueError, s))"

text \<open>
  One call of \<^verbatim>\<open>constant_folding_pass\<close>, its recursive calls made by \<open>f\<close>, and
  the pass itself, run with recursion depth at most \<open>n\<close> (\<open>None\<close> beyond it: the
  graph of nodes may be cyclic).
\<close>

definition fold_node :: "py_prims \<Rightarrow> ir_pass \<Rightarrow> ir_pass" where
  "fold_node p f s node =
     (case pass_all f (children (objects s node)) s of
        None \<Rightarrow> None
      | Some (Inl e, s1) \<Rightarrow> Some (Inl e, s1)
      | Some (Inr new_children, s1) \<Rightarrow>
          (let s2 = set_children s1 node new_children;
               t = node_type s2 node
           in if t = BINARY_OP \<or> t = EXPRESSION then
                (case fold_binary_op p s2 node of (r, s3) \<Rightarrow> Some (Inr r, s3))
              else if t = ASSIGNMENT then fold_assignment f s2 node
              else if t = FUNCTION then fold_again f s2 node
              else if t = BLOCK then fold_again f s2 node
              else Some (Inr node, s2)))"

fun constant_folding_pass :: "py_prims \<Rightarrow> nat \<Rightarrow> ir_pass" where
  "constant_folding_pass p 0 = (\<lambda>s node. None)"
| "constant_folding_pass p (Suc n) = fold_node p (constant_folding_pass p n)"

text \<open>
  \<^verbatim>\<open>_eliminate_dead_code_block\<close>: the statements up to the first one whose
  \<^verbatim>\<open>node_type\<close> is \<^verbatim>\<open>RETURN\<close>, each replaced by what the pass returns for it.
\<close>

fun eliminate_dead_code_block ::
  "ir_pass \<Rightarrow> nat list \<Rightarrow> ir_store \<Rightarrow> (nat list) ir_outcome option" where
  "eliminate_dead_code_block f [] s = Some (Inr [], s)"
| "eliminate_dead_code_block f (stmt # rest) s =
     (case f s stmt of
        None \<Rightarrow> None
      | Some (Inl e, s') \<Rightarrow> Some (Inl e, s')
      | Some (Inr optimized_stmt, s') \<Rightarrow>
          if node_type s' stmt = RETURN then Some (Inr [optimized_stmt], s')
          else
            (case eliminate_dead_code_block f rest s' of
               None \<Rightarrow> None
             | Some (Inl e, s'') \<Rightarrow> Some (Inl e, s'')
             | Some (Inr new_statements, s'') \<Rightarrow>
                 Some (Inr (optimized_stmt # new_statements), s'')))"

definition eliminate_node :: "ir_pass \<Rightarrow> ir_pass" where
  "eliminate_node f s node =
     (if node_type s node = FUNCTION \<or> node_type s node = BLOCK then
        (case eliminate_dead_code_block f (children (objects s node)) s of
           None \<Rightarrow> None
         | Some (Inl e, s') \<Rightarrow> Some (Inl e, s')
         | Some (Inr cs, s') \<Rightarrow> Some (Inr node, set_children s' node cs))
      else Some (Inr node, s))"

fun dead_code_elimination_pass :: "nat \<Rightarrow> ir_pass" where
  "dead_code_elimination_pass 0 = (\<lambda>s node. None)"
| "dead_code_elimination_pass (Suc n) = eliminate_node (dead_code_elimination_pass n)"

text \<open>\<^verbatim>\<open>IROptimizer(ir_root).optimize()\<close>: the two passes in order.\<close>

definition optimize :: "py_prims \<Rightarrow> nat \<Rightarrow> ir_pass" where
  "optimize p n s ir_root =
     (case constant_folding_pass p n s ir_root of
        None \<Rightarrow> None
      | Some (Inl e, s') \<Rightarrow> Some (Inl e, s')
      | Some (Inr r, s') \<Rightarrow> dead_code_elimination_pass n s' r)"


text \<open>The expression \<^verbatim>\<open>2 + 3 * 4\<close> built with the constructors in an empty store.\<close>

definition two_plus_three_times_four :: "nat \<times> ir_store" where
  "two_plus_three_times_four =
     (case new_ConstantNode empty_store (PInt 2) (Some ''int'') of (c2, s1) \<Rightarrow>
      case new_ConstantNode s1 (PInt 3) (Some ''int'') of (c3, s2) \<Rightarrow>
      case new_ConstantNode s2 (PInt 4) (Some ''int'') of (c4, s3) \<Rightarrow>
      case new_BinaryOpNode s3 ''*'' c3 c4 of (m, s4) \<Rightarrow>
      new_BinaryOpNode s4 ''+'' c2 m)"

text \<open>\<^verbatim>\<open>if True: return 1 else: return 2\<close> as an \<^verbatim>\<open>IfNode\<close>.\<close>

definition if_true_example :: "nat \<times> ir_store" where
  "if_true_example =
     (case new_ConstantNode empty_store (PBool True) (Some ''bool'') of (c, s1) \<Rightarrow>
      case new_ConstantNode s1 (PInt 1) (Some ''int'') of (c1, s2) \<Rightarrow>
      case new_ReturnNode s2 (Some c1) of (r1, s3) \<Rightarrow>
      case new_ConstantNode s3 (PInt 2) (Some ''int'') of (c2, s4) \<Rightarrow>
      case new_ReturnNode s4 (Some c2) of (r2, s5) \<Rightarrow>
      new_IfNode s5 c [r1] [r2])"

text \<open>\<^verbatim>\<open>while False: return 1\<close> as a \<^verbatim>\<open>WhileNode\<close>.\<close>

definition while_false_example :: "nat \<times> ir_store" where
  "while_false_example =
     (case new_ConstantNode empty_store (PBool False) (Some ''bool'') of (c, s1) \<Rightarrow>
      case new_ConstantNode s1 (PInt 1) (Some ''int'') of (c1, s2) \<Rightarrow>
      case new_ReturnNode s2 (Some c1) of (r1, s3) \<Rightarrow>
      new_WhileNode s3 c [r1])"

text \<open>\<^verbatim>\<open>1 / 0\<close> as a \<^verbatim>\<open>BinaryOpNode\<close>.\<close>

definition one_by_zero_example :: "nat \<times> ir_store" where
  "one_by_zero_example =
     (case new_ConstantNode empty_store (PInt 1) (Some ''int'') of (c1, s1) \<Rightarrow>
      case new_ConstantNode s1 (PInt 0) (Some ''int'') of (c0, s2) \<Rightarrow>
      new_BinaryOpNode s2 ''/'' c1 c0)"

section \<open>The runtime environment (runtime/runtime\_env.py)\<close>

text \<open>
  A \<^verbatim>\<open>Scope\<close> object is the address of its \<^verbatim>\<open>symbols\<close> dict and its parent;
  a \<^verbatim>\<open>StackFrame\<close> is held by the call stack only. \<open>'v\<close> is the type of the values
  of the running program. The exception is the module's own class \<^verbatim>\<open>RuntimeError\<close>.
\<close>

datatype runtime_scope = Scope (scope_addr: nat) (scope_parent: "runtime_scope option")

datatype runtime_error = RuntimeError_env string

record 'v stack_frame =
  function_name :: string
  local_scope :: runtime_scope
  return_address :: "'v option"
  instruction_pointer :: int
  frame_metadata :: "'v dict"

record 'v runtime_env =
  scope_symbols :: "nat \<Rightarrow> 'v dict"
  next_scope :: nat
  global_scope :: runtime_scope
  call_stack :: "'v stack_frame list"

definition Scope_new ::
  "'v runtime_env \<Rightarrow> runtime_scope option \<Rightarrow> runtime_scope \<times> 'v runtime_env" where
  "Scope_new renv par =
     (Scope (next_scope renv) par,
      renv\<lparr>scope_symbols := (scope_symbols renv)(next_scope renv := []),
           next_scope := next_scope renv + 1\<rparr>)"

definition Scope_declare ::
  "'v runtime_env \<Rightarrow> runtime_scope \<Rightarrow> string \<Rightarrow> 'v \<Rightarrow> runtime_error + 'v runtime_env" where
  "Scope_declare renv sc nm v =
     (if dict_has (scope_symbols renv (scope_addr sc)) nm
      then Inl (RuntimeError_env (''Variable '' @ [CHR 0x27] @ nm @ [CHR 0x27] @
                                  '' already declared in current scope.''))
      else Inr (renv\<lparr>scope_symbols := (scope_symbols renv)
                   (scope_addr sc := dict_set (scope_symbols renv (scope_addr sc)) nm v)\<rparr>))"

definition StackFrame_new ::
  "'v runtime_env \<Rightarrow> string \<Rightarrow> 'v option \<Rightarrow> runtime_scope option \<Rightarrow>
   'v stack_frame \<times> 'v runtime_env" where
  "StackFrame_new renv fname ra parent_scope =
     (case Scope_new renv parent_scope of
        (sc, renv') \<Rightarrow>
          (\<lparr>function_name = fname, local_scope = sc, return_address = ra,
            instruction_pointer = 0, frame_metadata = []\<rparr>, renv'))"

definition RuntimeEnv_push_stack_frame ::
  "'v runtime_env \<Rightarrow> string \<Rightarrow> 'v option \<Rightarrow> runtime_scope option \<Rightarrow>
   'v stack_frame \<times> 'v runtime_env" where
  "RuntimeEnv_push_stack_frame renv fname ra parent_scope =
     (case StackFrame_new renv fname ra parent_scope of
        (frame, renv') \<Rightarrow> (frame, renv'\<lparr>call_stack := call_stack renv' @ [frame]\<rparr>))"

definition RuntimeEnv_init :: "'v runtime_env" where
  "RuntimeEnv_init =
     snd (RuntimeEnv_push_stack_frame
            \<lparr>scope_symbols = (\<lambda>a. []), next_scope = 1, global_scope = Scope 0 None,
             call_stack = []\<rparr>
            ''<global>'' None (Some (Scope 0 None)))"

text \<open>The stub table of \<^verbatim>\<open>lookup_function\<close>: each name with its \<^verbatim>\<open>params\<close>
  (the \<^verbatim>\<open>body\<close> of both is \<^verbatim>\<open>None\<close>).\<close>

definition example_functions :: "(string \<times> string list) list" where
  "example_functions = [(''foo'', [''x'', ''y'']), (''bar'', [])]"

definition lookup_function :: "string \<Rightarrow> runtime_error + string list" where
  "lookup_function fname =
     (case map_of example_functions fname of
        None \<Rightarrow> Inl (RuntimeError_env (''Function '' @ [CHR 0x27] @ fname @ [CHR 0x27] @
                                      '' is not defined.''))
      | Some ps \<Rightarrow> Inr ps)"

text \<open>\<^verbatim>\<open>for param_name, arg_value in zip(...): new_frame.local_scope.declare(...)\<close>\<close>

fun declare_each ::
  "'v runtime_env \<Rightarrow> runtime_scope \<Rightarrow> (string \<times> 'v) list \<Rightarrow>
   (runtime_error + unit) \<times> 'v runtime_env" where
  "declare_each renv sc [] = (Inr (), renv)"
| "declare_each renv sc ((nm, v) # rest) =
     (case Scope_declare renv sc nm v of
        Inl e \<Rightarrow> (Inl e, renv)
      | Inr renv' \<Rightarrow> declare_each renv' sc rest)"

definition call_function ::
  "'v runtime_env \<Rightarrow> string \<Rightarrow> 'v list \<Rightarrow> (runtime_error + 'v stack_frame) \<times> 'v runtime_env" where
  "call_function renv fname args =
     (case lookup_function fname of
        Inl e \<Rightarrow> (Inl e, renv)
      | Inr ps \<Rightarrow>
          if length args \<noteq> length ps
          then (Inl (RuntimeError_env
                       (''Function '' @ [CHR 0x27] @ fname @ [CHR 0x27] @ '' expects '' @
                        str_int (int (length ps)) @ '' arguments, got '' @
                        str_int (int (length args)) @ ''.'')), renv)
          else
            (case RuntimeEnv_push_stack_frame renv fname None (Some (global_scope renv)) of
               (new_frame, renv1) \<Rightarrow>
                 (case declare_each renv1 (local_scope new_frame) (zip ps args) of
                    (Inl e, renv2) \<Rightarrow> (Inl e, renv2)
                  | (Inr u, renv2) \<Rightarrow>
                      (Inr (new_frame\<lparr>instruction_pointer := 0\<rparr>),
                       renv2\<lparr>call_stack := butlast (call_stack renv2) @
                                             [new_frame\<lparr>instruction_pointer := 0\<rparr>]\<rparr>))))"

section \<open>Theorems\<close>

subsection \<open>Type unification and struct subtyping\<close>

text \<open>
  C3. Unification of the primitive types as the code computes it:
  \<^verbatim>\<open>FloatType().unify(IntType())\<close> is Float and \<^verbatim>\<open>BoolType().unify(IntType())\<close>
  is none, but \<^verbatim>\<open>IntType().unify(FloatType())\<close> runs the base method, whose test
  \<^verbatim>\<open>self == other\<close> is \<^verbatim>\<open>IntType.__eq__\<close>, and is none as well: the promotion
  works in one argument order only.
\<close>

theorem unify_int_float_one_way:
  "unify FloatType IntType = Some FloatType \<and>
   unify IntType FloatType = None \<and>
   unify BoolType IntType = None"
  by simp

lemma list_all_fields:
  "distinct (map fst fb) \<Longrightarrow>
   list_all (\<lambda>(key, typ). case map_of fa key of None \<Rightarrow> False
                            | Some t \<Rightarrow> is_subtype_of t typ) fb
   = fields_covered fa fb"
  unfolding fields_covered_def list_all_iff
  by (fastforce split: option.splits)

text \<open>
  C5, as the code has it. \<^verbatim>\<open>StructType.is_subtype_of\<close> first compares the two names
  (\<^verbatim>\<open>if self.name != other.name: return False\<close>): for two struct types of the same
  name, A is a subtype of B exactly when every field B declares is present in A with a
  type that is a subtype of the declared one, and two structs of different names are
  never subtypes. In particular \<open>{a: Int, b: Int}\<close> is a subtype of \<open>{a: Int}\<close> of
  the same name, and not the other way round. The keys of a dict are distinct.
\<close>

theorem struct_width_subtyping:
  assumes "distinct (map fst fb)"
  shows "(is_subtype_of (StructType n fa) (StructType n' fb) \<longleftrightarrow>
            n = n' \<and> fields_covered fa fb)
    \<and> is_subtype_of (StructType n [(''a'', IntType), (''b'', IntType)])
                      (StructType n [(''a'', IntType)])
    \<and> \<not> is_subtype_of (StructType n [(''a'', IntType)])
                        (StructType n [(''a'', IntType), (''b'', IntType)])"
  using list_all_fields [OF assms, of fa] by simp

theorem struct_width_subtyping_witness:
  "distinct (map fst [(''a'', IntType)]) \<and>
   is_subtype_of (StructType ''S'' [(''a'', IntType), (''b'', IntType)])
                 (StructType ''S'' [(''a'', IntType)]) \<and>
   fields_covered [(''a'', IntType), (''b'', IntType)] [(''a'', IntType)]"
  using struct_width_subtyping
    [of "[(''a'', IntType)]" "''S''" "[(''a'', IntType), (''b'', IntType)]" "''S''"]
  by simp

text \<open>
  The claim as stated, for every two struct types, fails where the names differ: every
  field of \<open>Q\<close> is present in \<open>P\<close> with the same type, and \<open>P\<close> is not a subtype.
\<close>

theorem struct_subtyping_needs_same_name:
  "fields_covered [(''a'', IntType), (''b'', IntType)] [(''a'', IntType)] \<and>
   \<not> is_subtype_of (StructType ''P'' [(''a'', IntType), (''b'', IntType)])
                    (StructType ''Q'' [(''a'', IntType)])"
  by (simp add: fields_covered_def)

subsection \<open>Symbol table\<close>

lemma py_index_last:
  "xs \<noteq> [] \<Longrightarrow> py_index xs (int (length xs) - 1) = Some (length xs - 1, last xs)"
  by (cases xs rule: rev_cases) (auto simp: py_index_def Let_def nth_append)

lemma table_ok_init: "table_ok SymbolTable_init"
  by (simp add: table_ok_def SymbolTable_init_def enter_scope_def)

lemma table_ok_enter: "table_ok st \<Longrightarrow> table_ok (enter_scope st)"
  by (simp add: table_ok_def enter_scope_def Let_def)

lemma table_ok_exit: "table_ok st \<Longrightarrow> exit_scope st = Inr st' \<Longrightarrow> table_ok st'"
  by (cases "scopes st" rule: rev_cases)
     (auto simp: table_ok_def exit_scope_def split: if_splits)

lemma table_ok_insert:
  "table_ok st \<Longrightarrow> insert_symbol st nm ty m g f md = Inr (smb, st') \<Longrightarrow> table_ok st'"
  by (auto simp: table_ok_def insert_symbol_def Let_def split: option.splits sum.splits)

lemma insert_fails_iff:
  assumes "table_ok st" "scopes st \<noteq> []"
  shows "(case insert_symbol st nm ty m g f md of
            Inl e \<Rightarrow> (\<exists>msg. e = KeyError msg) \<and> dict_has (symbols (last (scopes st))) nm
          | Inr r \<Rightarrow> \<not> dict_has (symbols (last (scopes st))) nm)"
  using assms py_index_last [of "scopes st"]
  by (auto simp: table_ok_def insert_symbol_def Let_def Scope_insert_def
           split: option.splits sum.splits)

lemma lookup_snoc:
  "lookup (st\<lparr>scopes := scs @ [sc]\<rparr>) nm =
     (case map_of (symbols sc) nm of
        Some s \<Rightarrow> Some s
      | None \<Rightarrow> lookup (st\<lparr>scopes := scs\<rparr>) nm)"
  by (simp add: lookup_def Scope_lookup_def split: option.splits)

lemma shadow_roundtrip:
  assumes ok: "table_ok st" and open_scope: "scopes st \<noteq> []"
  shows "\<exists>smb st2.
           insert_symbol (enter_scope st) nm ty m g f md = Inr (smb, st2) \<and>
           sym_name smb = nm \<and> sym_type smb = ty \<and> scope_level smb = current_level st + 1 \<and>
           lookup st2 nm = Some smb \<and>
           exit_scope st2 = Inr st"
proof -
  let ?lvl = "current_level st + 1"
  let ?smb = "\<lparr>sym_name = nm, sym_type = ty, scope_level = ?lvl,
               is_mutable = m, is_global = g, is_function = f,
               metadata = (case md of None \<Rightarrow> [] | Some x \<Rightarrow> x)\<rparr>"
  let ?st2 = "st\<lparr>current_level := ?lvl,
                  scopes := scopes st @ [\<lparr>level = ?lvl, symbols = [(nm, ?smb)]\<rparr>]\<rparr>"
  have idx: "py_index (scopes st @ [\<lparr>level = ?lvl, symbols = []\<rparr>]) ?lvl
             = Some (length (scopes st), \<lparr>level = ?lvl, symbols = []\<rparr>)"
    using ok by (simp add: py_index_def table_ok_def Let_def)
  have ins: "insert_symbol (enter_scope st) nm ty m g f md = Inr (?smb, ?st2)"
    using idx
    by (simp add: insert_symbol_def enter_scope_def Let_def Scope_insert_def dict_has_def)
  have lk: "lookup ?st2 nm = Some ?smb"
    by (simp add: lookup_def Scope_lookup_def)
  have ex: "exit_scope ?st2 = Inr st"
    using ok open_scope by (simp add: exit_scope_def table_ok_def)
  show ?thesis
    using ins lk ex by (intro exI [of _ ?smb] exI [of _ ?st2]) simp
qed

text \<open>
  C8, as the code has it. On a table with at least one open scope (every table the class
  builds until the global scope itself is exited; such tables keep
  \<^verbatim>\<open>current_level == len(scopes) - 1\<close>), \<^verbatim>\<open>insert\<close> fails, with KeyError, exactly
  when the name is already in the innermost scope, whatever the outer scopes hold.
  \<^verbatim>\<open>lookup\<close> looks in the innermost scope first and then outwards. After
  \<^verbatim>\<open>enter_scope\<close> and the insertion of a name, \<^verbatim>\<open>lookup\<close> returns the new, inner
  symbol, and \<^verbatim>\<open>exit_scope\<close> then gives back the table as it was before, so that
  \<^verbatim>\<open>lookup\<close> returns the outer binding again.
\<close>

theorem symbol_table_scoping:
  assumes ok: "table_ok st" and open_scope: "scopes st \<noteq> []"
  shows "(case insert_symbol st nm ty m g f md of
            Inl e \<Rightarrow> (\<exists>msg. e = KeyError msg) \<and> dict_has (symbols (last (scopes st))) nm
          | Inr r \<Rightarrow> \<not> dict_has (symbols (last (scopes st))) nm)
    \<and> lookup st nm =
         (case map_of (symbols (last (scopes st))) nm of
            Some s \<Rightarrow> Some s
          | None \<Rightarrow> lookup (st\<lparr>scopes := butlast (scopes st)\<rparr>) nm)
    \<and> (\<exists>smb st2.
           insert_symbol (enter_scope st) nm ty m g f md = Inr (smb, st2) \<and>
           sym_name smb = nm \<and> sym_type smb = ty \<and> scope_level smb = current_level st + 1 \<and>
           lookup st2 nm = Some smb \<and>
           exit_scope st2 = Inr st)"
proof -
  have "lookup (st\<lparr>scopes := butlast (scopes st) @ [last (scopes st)]\<rparr>) nm =
         (case map_of (symbols (last (scopes st))) nm of
            Some s \<Rightarrow> Some s
          | None \<Rightarrow> lookup (st\<lparr>scopes := butlast (scopes st)\<rparr>) nm)"
    by (rule lookup_snoc)
  then have "lookup st nm =
         (case map_of (symbols (last (scopes st))) nm of
            Some s \<Rightarrow> Some s
          | None \<Rightarrow> lookup (st\<lparr>scopes := butlast (scopes st)\<rparr>) nm)"
    using open_scope by simp
  then show ?thesis
    using insert_fails_iff [OF ok open_scope, of nm ty m g f md]
          shadow_roundtrip [OF ok open_scope, of nm ty m g f md]
    by blast
qed

theorem symbol_table_scoping_witness:
  "table_ok \<lparr>scopes = [\<lparr>level = 0, symbols = [(''x'', \<lparr>sym_name = ''x'', sym_type = IntType,
        scope_level = 0, is_mutable = True, is_global = True, is_function = False,
        metadata = ([] :: unit dict)\<rparr>)]\<rparr>], current_level = 0\<rparr> \<and>
   insert_symbol \<lparr>scopes = [\<lparr>level = 0, symbols = [(''x'', \<lparr>sym_name = ''x'',
        sym_type = IntType, scope_level = 0, is_mutable = True, is_global = True,
        is_function = False, metadata = ([] :: unit dict)\<rparr>)]\<rparr>], current_level = 0\<rparr>
      ''x'' FloatType False False False None
     = Inl (KeyError ''Symbol 'x' already declared in current scope (level 0).'') \<and>
   (\<exists>smb st2.
      insert_symbol (enter_scope \<lparr>scopes = [\<lparr>level = 0, symbols = [(''x'', \<lparr>sym_name = ''x'',
        sym_type = IntType, scope_level = 0, is_mutable = True, is_global = True,
        is_function = False, metadata = ([] :: unit dict)\<rparr>)]\<rparr>], current_level = 0\<rparr>)
        ''x'' FloatType False False False None = Inr (smb, st2) \<and>
      sym_type smb = FloatType \<and> lookup st2 ''x'' = Some smb \<and>
      (\<exists>st3. exit_scope st2 = Inr st3 \<and>
         map_option sym_type (lookup st3 ''x'') = Some IntType))"
proof -
  let ?st = "\<lparr>scopes = [\<lparr>level = 0, symbols = [(''x'', \<lparr>sym_name = ''x'', sym_type = IntType,
        scope_level = 0, is_mutable = True, is_global = True, is_function = False,
        metadata = ([] :: unit dict)\<rparr>)]\<rparr>], current_level = 0\<rparr>"
  have ok: "table_ok ?st" by (simp add: table_ok_def)
  have ne: "scopes ?st \<noteq> []" by simp
  have ins: "insert_symbol ?st ''x'' FloatType False False False None
     = Inl (KeyError ''Symbol 'x' already declared in current scope (level 0).'')"
    by (simp add: insert_symbol_def py_index_def Scope_insert_def dict_has_def str_int_def
                  digit_char_def)
  have lk: "map_option sym_type (lookup ?st ''x'') = Some IntType"
    by (simp add: lookup_def Scope_lookup_def)
  from symbol_table_scoping [OF ok ne, of "''x''" FloatType False False False None]
  obtain smb st2 where
    "insert_symbol (enter_scope ?st) ''x'' FloatType False False False None = Inr (smb, st2)"
    "sym_type smb = FloatType" "lookup st2 ''x'' = Some smb" "exit_scope st2 = Inr ?st"
    by blast
  with ok ins lk show ?thesis by blast
qed

lemma insert_without_scope:
  "scopes st = [] \<Longrightarrow> insert_symbol st nm ty m g f md = Inl IndexError"
  by (simp add: insert_symbol_def py_index_def)

text \<open>
  The claim as stated has no such proviso, and fails on the table that is left when the
  global scope has been exited (\<^verbatim>\<open>exit_scope\<close> refuses only below level 0): the name is
  in no scope, and \<^verbatim>\<open>insert\<close> fails all the same, with IndexError from
  \<^verbatim>\<open>self.scopes[self.current_level]\<close>.
\<close>

theorem insert_fails_without_scope:
  "exit_scope (SymbolTable_init :: (htype, unit) symbol_table)
     = Inr \<lparr>scopes = [], current_level = - 1\<rparr> \<and>
   lookup (\<lparr>scopes = [], current_level = - 1\<rparr> :: (htype, unit) symbol_table) ''x'' = None \<and>
   insert_symbol (\<lparr>scopes = [], current_level = - 1\<rparr> :: (htype, unit) symbol_table)
     ''x'' IntType False False False None = Inl IndexError"
  by (simp add: exit_scope_def SymbolTable_init_def enter_scope_def lookup_def
                insert_symbol_def py_index_def)

subsection \<open>Reference-counted heap\<close>

lemma heap_okD: "heap_ok mm \<Longrightarrow> heap mm a = Some obj \<Longrightarrow> 1 \<le> ref_count obj \<and> a < next_addr mm"
  unfolding heap_ok_def by blast

lemma allocate_spec:
  assumes "heap_ok mm" "allocate sz mm v = (r, mm')"
  shows "heap_ok mm'" "next_addr mm \<le> next_addr mm'"
    "\<And>a. a < next_addr mm \<Longrightarrow> heap mm' a = heap mm a"
    "\<And>a. heap mm a \<noteq> None \<Longrightarrow> heap mm' a = heap mm a"
    "stack_frames mm' = stack_frames mm" "current_frame_vars mm' = current_frame_vars mm"
    "\<And>a. r = Inr a \<Longrightarrow> a = next_addr mm \<and> next_addr mm' = a + 1"
    "\<And>e. r = Inl e \<Longrightarrow> mm' = mm"
  using assms unfolding heap_ok_def allocate_def Let_def
  by (auto split: if_splits) force+

lemma deallocate_spec:
  assumes "heap_ok mm" "deallocate sz mm a = (r, mm')"
  shows "mm' = mm" "isl r"
  using assms heap_okD [OF assms(1), of a]
  by (auto simp: deallocate_def split: option.splits if_splits)

lemma inc_ref_spec:
  assumes "heap_ok mm" "inc_ref mm a = (r, mm')"
  shows "heap_ok mm'" "next_addr mm' = next_addr mm"
    "\<And>b. (heap mm' b = None) = (heap mm b = None)"
    "stack_frames mm' = stack_frames mm" "current_frame_vars mm' = current_frame_vars mm"
    "heap mm a = None \<Longrightarrow> mm' = mm \<and> isl r"
  using assms unfolding heap_ok_def inc_ref_def
  by (auto split: option.splits if_splits) force+

lemma dec_ref_None:
  "heap mm a = None \<Longrightarrow>
   dec_ref sz mm a = (Inl (MemoryError (''Invalid dec_ref on address '' @ str_int a)), mm)"
  by (simp add: dec_ref_def)

lemma dec_ref_last:
  "heap mm a = Some obj \<Longrightarrow> ref_count obj = 1 \<Longrightarrow>
   dec_ref sz mm a =
     (Inr (), mm\<lparr>heap := (heap mm)(a := None),
                used_heap_size := used_heap_size mm - sz (obj_value obj)\<rparr>)"
  by (simp add: dec_ref_def deallocate_def Let_def)

lemma dec_ref_more:
  "heap mm a = Some obj \<Longrightarrow> 1 < ref_count obj \<Longrightarrow>
   dec_ref sz mm a =
     (Inr (), mm\<lparr>heap := (heap mm)(a \<mapsto> obj\<lparr>ref_count := ref_count obj - 1\<rparr>)\<rparr>)"
  by (simp add: dec_ref_def Let_def)

lemma heap_ok_step:
  assumes "heap_ok mm" "next_addr mm \<le> next_addr mm'"
    "\<And>b obj. heap mm' b = Some obj \<Longrightarrow>
        heap mm b = Some obj \<or> (1 \<le> ref_count obj \<and> b < next_addr mm')"
  shows "heap_ok mm'"
  unfolding heap_ok_def
proof (intro allI impI)
  fix b obj assume h: "heap mm' b = Some obj"
  from assms(3) [OF h] show "1 \<le> ref_count obj \<and> b < next_addr mm'"
    using heap_okD [OF assms(1), of b obj] assms(2) by auto
qed

lemma dec_ref_spec:
  assumes "heap_ok mm" "dec_ref sz mm a = (r, mm')"
  shows "heap_ok mm'" "next_addr mm' = next_addr mm"
    "\<And>b. b \<noteq> a \<Longrightarrow> heap mm' b = heap mm b"
    "stack_frames mm' = stack_frames mm" "current_frame_vars mm' = current_frame_vars mm"
    "heap mm a = None \<Longrightarrow> mm' = mm \<and> isl r"
    "\<And>obj. heap mm a = Some obj \<Longrightarrow> r = Inr () \<and>
        heap mm' a = (if ref_count obj = 1 then None else Some (obj\<lparr>ref_count := ref_count obj - 1\<rparr>))"
proof -
  consider (none) "heap mm a = None"
    | (last) obj where "heap mm a = Some obj" "ref_count obj = 1"
    | (more) obj where "heap mm a = Some obj" "1 < ref_count obj"
    using heap_okD [OF assms(1), of a] by (cases "heap mm a") force+
  then have "heap_ok mm' \<and> next_addr mm' = next_addr mm \<and>
    (\<forall>b. b \<noteq> a \<longrightarrow> heap mm' b = heap mm b) \<and>
    stack_frames mm' = stack_frames mm \<and> current_frame_vars mm' = current_frame_vars mm \<and>
    (heap mm a = None \<longrightarrow> mm' = mm \<and> isl r) \<and>
    (\<forall>obj. heap mm a = Some obj \<longrightarrow> r = Inr () \<and>
        heap mm' a = (if ref_count obj = 1 then None else Some (obj\<lparr>ref_count := ref_count obj - 1\<rparr>)))"
  proof cases
    case none
    then show ?thesis using assms dec_ref_None [OF none, of sz] by auto
  next
    case last
    have eq: "r = Inr ()" "mm' = mm\<lparr>heap := (heap mm)(a := None),
                used_heap_size := used_heap_size mm - sz (obj_value obj)\<rparr>"
      using assms(2) dec_ref_last [OF last, of sz] by auto
    have "heap_ok mm'"
      by (rule heap_ok_step [OF assms(1)]) (auto simp: eq split: if_splits)
    then show ?thesis using last eq by simp
  next
    case more
    have eq: "r = Inr ()" "mm' = mm\<lparr>heap := (heap mm)(a \<mapsto> obj\<lparr>ref_count := ref_count obj - 1\<rparr>)\<rparr>"
      using assms(2) dec_ref_more [OF more, of sz] by auto
    have "heap_ok mm'"
      using more heap_okD [OF assms(1) more(1)]
      by (intro heap_ok_step [OF assms(1)]) (auto simp: eq split: if_splits)
    then show ?thesis using more eq by simp
  qed
  then show "heap_ok mm'" "next_addr mm' = next_addr mm"
    "\<And>b. b \<noteq> a \<Longrightarrow> heap mm' b = heap mm b"
    "stack_frames mm' = stack_frames mm" "current_frame_vars mm' = current_frame_vars mm"
    "heap mm a = None \<Longrightarrow> mm' = mm \<and> isl r"
    "\<And>obj. heap mm a = Some obj \<Longrightarrow> r = Inr () \<and>
        heap mm' a = (if ref_count obj = 1 then None else Some (obj\<lparr>ref_count := ref_count obj - 1\<rparr>))"
    by blast+
qed

lemma release_post_Nil: "heap_ok mm \<Longrightarrow> release_post mm [] (Inr ()) mm"
  unfolding release_post_def by simp

lemma release_post_refl: "heap_ok mm \<Longrightarrow> release_post mm items (Inl e) mm"
  unfolding release_post_def by auto

lemma release_postD:
  assumes "release_post mm items r mm'"
  shows "heap_ok mm'" "next_addr mm' = next_addr mm"
      "stack_frames mm' = stack_frames mm" "current_frame_vars mm' = current_frame_vars mm"
      "\<And>b. b \<notin> snd ` set items \<Longrightarrow> heap mm' b = heap mm b"
      "\<And>b. heap mm b = None \<Longrightarrow> heap mm' b = None"
      "\<And>b o'. heap mm b = Some o' \<Longrightarrow> heap mm' b = None \<Longrightarrow>
        ref_count o' = 1 \<and> b \<in> snd ` set items"
      "\<And>b o'. r = Inr () \<Longrightarrow> b \<in> snd ` set items \<Longrightarrow> heap mm b = Some o' \<Longrightarrow>
        ref_count o' = 1 \<Longrightarrow> heap mm' b = None"
proof -
  from assms have c0: "heap_ok mm' \<and> next_addr mm' = next_addr mm \<and>
    stack_frames mm' = stack_frames mm \<and> current_frame_vars mm' = current_frame_vars mm \<and>
    (\<forall>a. a \<notin> snd ` set items \<longrightarrow> heap mm' a = heap mm a) \<and>
    (\<forall>a. heap mm a = None \<longrightarrow> heap mm' a = None) \<and>
    (\<forall>a obj. heap mm a = Some obj \<longrightarrow> heap mm' a = None \<longrightarrow>
        ref_count obj = 1 \<and> a \<in> snd ` set items) \<and>
    (r = Inr () \<longrightarrow> (\<forall>a \<in> snd ` set items. \<forall>obj. heap mm a = Some obj \<longrightarrow>
        ref_count obj = 1 \<longrightarrow> heap mm' a = None))"
    unfolding release_post_def .
  note c = c0 [THEN conjunct1]
    c0 [THEN conjunct2, THEN conjunct1]
    c0 [THEN conjunct2, THEN conjunct2, THEN conjunct1]
    c0 [THEN conjunct2, THEN conjunct2, THEN conjunct2, THEN conjunct1]
    c0 [THEN conjunct2, THEN conjunct2, THEN conjunct2, THEN conjunct2, THEN conjunct1]
    c0 [THEN conjunct2, THEN conjunct2, THEN conjunct2, THEN conjunct2, THEN conjunct2,
        THEN conjunct1]
    c0 [THEN conjunct2, THEN conjunct2, THEN conjunct2, THEN conjunct2, THEN conjunct2,
        THEN conjunct2, THEN conjunct1]
    c0 [THEN conjunct2, THEN conjunct2, THEN conjunct2, THEN conjunct2, THEN conjunct2,
        THEN conjunct2, THEN conjunct2]
  show "heap_ok mm'" "next_addr mm' = next_addr mm"
      "stack_frames mm' = stack_frames mm" "current_frame_vars mm' = current_frame_vars mm"
    by (rule c)+
  show "\<And>b. b \<notin> snd ` set items \<Longrightarrow> heap mm' b = heap mm b"
    using c(5) by blast
  show "\<And>b. heap mm b = None \<Longrightarrow> heap mm' b = None"
    using c(6) by blast
  show "\<And>b o'. heap mm b = Some o' \<Longrightarrow> heap mm' b = None \<Longrightarrow>
        ref_count o' = 1 \<and> b \<in> snd ` set items"
    using c(7) by blast
  show "\<And>b o'. r = Inr () \<Longrightarrow> b \<in> snd ` set items \<Longrightarrow> heap mm b = Some o' \<Longrightarrow>
        ref_count o' = 1 \<Longrightarrow> heap mm' b = None"
    using c(8) by auto
qed

lemma release_frame_spec:
  assumes "heap_ok mm" "distinct (map snd items)" "release_frame sz mm items = (r, mm')"
  shows "release_post mm items r mm'"
  using assms
proof (induction items arbitrary: mm)
  case Nil
  from Nil(3) have "r = Inr ()" "mm' = mm" by simp_all
  then show ?case using release_post_Nil [OF Nil(1)] by simp
next
  case (Cons item items)
  obtain var a where item: "item = (var, a)" by (cases item)
  obtain r1 mm1 where d: "dec_ref sz mm a = (r1, mm1)" by (cases "dec_ref sz mm a")
  note ds = dec_ref_spec [OF Cons.prems(1) d]
  show ?case
  proof (cases r1)
    case (Inl e)
    then have eq: "r = Inl e" "mm' = mm1" using Cons.prems(3) item d by auto
    have "heap mm a = None"
    proof (cases "heap mm a")
      case None then show ?thesis .
    next
      case (Some obj)
      from ds(7) [OF Some] Inl show ?thesis by simp
    qed
    then have "mm1 = mm" using ds(6) by simp
    then show ?thesis using eq release_post_refl [OF Cons.prems(1)] by simp
  next
    case (Inr u)
    then have rest: "release_frame sz mm1 items = (r, mm')" using Cons.prems(3) item d by auto
    have dist: "distinct (map snd items)" "a \<notin> snd ` set items"
      using Cons.prems(2) item by auto
    have ih: "release_post mm1 items r mm'" by (rule Cons.IH [OF ds(1) dist(1) rest])
    note ih0 = release_postD(1-4) [OF ih]
    note ih1 = release_postD(5) [OF ih]
    note ih2 = release_postD(6) [OF ih]
    note ih3 = release_postD(7) [OF ih]
    note ih4 = release_postD(8) [OF ih]
    obtain obj where obj: "heap mm a = Some obj"
    proof (cases "heap mm a")
      case None
      from ds(6) [OF None] Inr show ?thesis by simp
    next
      case (Some obj) then show ?thesis by (rule that)
    qed
    have h1: "heap mm1 a = (if ref_count obj = 1 then None else Some (obj\<lparr>ref_count := ref_count obj - 1\<rparr>))"
      using ds(7) [OF obj] by simp
    have h1': "heap mm' a = heap mm1 a" using ih1 dist(2) by simp
    have others: "\<And>b. b \<noteq> a \<Longrightarrow> heap mm1 b = heap mm b" by (rule ds(3))
    have sub: "snd ` set (item # items) = insert a (snd ` set items)" using item by simp
    have c1: "\<forall>b. b \<notin> snd ` set (item # items) \<longrightarrow> heap mm' b = heap mm b"
      unfolding sub using ih1 others by simp
    have c2: "\<forall>b. heap mm b = None \<longrightarrow> heap mm' b = None"
    proof (intro allI impI)
      fix b assume n: "heap mm b = None"
      then have "b \<noteq> a" using obj by auto
      then have "heap mm1 b = None" using others [of b] n by simp
      then show "heap mm' b = None" by (rule ih2)
    qed
    have c3: "\<forall>b o'. heap mm b = Some o' \<longrightarrow> heap mm' b = None \<longrightarrow>
        ref_count o' = 1 \<and> b \<in> snd ` set (item # items)"
      unfolding sub
    proof (intro allI impI)
      fix b o' assume b: "heap mm b = Some o'" "heap mm' b = None"
      show "ref_count o' = 1 \<and> b \<in> insert a (snd ` set items)"
      proof (cases "b = a")
        case True
        then have "o' = obj" using b obj by simp
        moreover have "heap mm1 a = None" using h1' b True by simp
        ultimately show ?thesis using h1 True by (simp split: if_splits)
      next
        case False
        then have "heap mm1 b = Some o'" using others b by simp
        then show ?thesis using ih3 [of b o'] b(2) by simp
      qed
    qed
    have c4: "r = Inr () \<longrightarrow> (\<forall>b \<in> snd ` set (item # items). \<forall>o'. heap mm b = Some o' \<longrightarrow>
        ref_count o' = 1 \<longrightarrow> heap mm' b = None)"
      unfolding sub
    proof (intro impI ballI allI)
      fix b o' assume r: "r = Inr ()" and b: "b \<in> insert a (snd ` set items)"
        "heap mm b = Some o'" "ref_count o' = 1"
      show "heap mm' b = None"
      proof (cases "b = a")
        case True
        then have "o' = obj" using b obj by simp
        then show ?thesis using b h1 h1' True by simp
      next
        case False
        then have "heap mm1 b = Some o'" "b \<in> snd ` set items" using others b by auto
        then show ?thesis using ih4 [OF r] b(3) by simp
      qed
    qed
    have c0: "heap_ok mm'" "next_addr mm' = next_addr mm"
      "stack_frames mm' = stack_frames mm" "current_frame_vars mm' = current_frame_vars mm"
      using ih0 ds(2,4,5) by simp_all
    show ?thesis unfolding release_post_def
      by (intro conjI c0 c1 c2 c3 c4)
  qed
qed

lemma step_postI:
  assumes "heap_ok mm'" "frames_ok mm'" "next_addr mm \<le> next_addr mm'"
    "\<And>a. heap mm a = None \<Longrightarrow> a < next_addr mm \<Longrightarrow> heap mm' a = None"
    "\<And>a obj. heap mm a = Some obj \<Longrightarrow> heap mm' a = None \<Longrightarrow>
         ref_count obj = 1 \<and>
         (op = Dec_ref a \<or>
          op = Pop_stack_frame \<and>
            (\<exists>frame rest. stack_frames mm = frame # rest \<and> a \<in> snd ` set frame))"
  shows "step_post mm op mm'"
proof -
  have 4: "\<forall>a. heap mm a = None \<longrightarrow> a < next_addr mm \<longrightarrow> heap mm' a = None"
    using assms(4) by blast
  have 5: "\<forall>a obj. heap mm a = Some obj \<longrightarrow> heap mm' a = None \<longrightarrow>
         ref_count obj = 1 \<and>
         (op = Dec_ref a \<or>
          op = Pop_stack_frame \<and>
            (\<exists>frame rest. stack_frames mm = frame # rest \<and> a \<in> snd ` set frame))"
    using assms(5) by blast
  show ?thesis unfolding step_post_def
    by (intro conjI assms(1-3) 4 5)
qed

lemma step_postD:
  assumes "step_post mm op mm'"
  shows "heap_ok mm'" "frames_ok mm'" "next_addr mm \<le> next_addr mm'"
    "\<And>a. heap mm a = None \<Longrightarrow> a < next_addr mm \<Longrightarrow> heap mm' a = None"
    "\<And>a obj. heap mm a = Some obj \<Longrightarrow> heap mm' a = None \<Longrightarrow>
         ref_count obj = 1 \<and>
         (op = Dec_ref a \<or>
          op = Pop_stack_frame \<and>
            (\<exists>frame rest. stack_frames mm = frame # rest \<and> a \<in> snd ` set frame))"
proof -
  from assms have c0: "heap_ok mm' \<and> frames_ok mm' \<and> next_addr mm \<le> next_addr mm' \<and>
      (\<forall>a. heap mm a = None \<longrightarrow> a < next_addr mm \<longrightarrow> heap mm' a = None) \<and>
      (\<forall>a obj. heap mm a = Some obj \<longrightarrow> heap mm' a = None \<longrightarrow>
         ref_count obj = 1 \<and>
         (op = Dec_ref a \<or>
          op = Pop_stack_frame \<and>
            (\<exists>frame rest. stack_frames mm = frame # rest \<and> a \<in> snd ` set frame)))"
    unfolding step_post_def .
  show "heap_ok mm'" by (rule c0 [THEN conjunct1])
  show "frames_ok mm'" by (rule c0 [THEN conjunct2, THEN conjunct1])
  show "next_addr mm \<le> next_addr mm'"
    by (rule c0 [THEN conjunct2, THEN conjunct2, THEN conjunct1])
  show "\<And>a. heap mm a = None \<Longrightarrow> a < next_addr mm \<Longrightarrow> heap mm' a = None"
    by (rule c0 [THEN conjunct2, THEN conjunct2, THEN conjunct2, THEN conjunct1, rule_format])
  show "\<And>a obj. heap mm a = Some obj \<Longrightarrow> heap mm' a = None \<Longrightarrow>
         ref_count obj = 1 \<and>
         (op = Dec_ref a \<or>
          op = Pop_stack_frame \<and>
            (\<exists>frame rest. stack_frames mm = frame # rest \<and> a \<in> snd ` set frame))"
    by (rule c0 [THEN conjunct2, THEN conjunct2, THEN conjunct2, THEN conjunct2, THEN spec,
                 THEN spec, THEN mp, THEN mp])
qed

lemma step_post_same: "heap_ok mm \<Longrightarrow> frames_ok mm \<Longrightarrow> step_post mm op mm"
  unfolding step_post_def by simp

lemma frames_ok_same:
  "frames_ok mm \<Longrightarrow> stack_frames mm' = stack_frames mm \<Longrightarrow> next_addr mm \<le> next_addr mm' \<Longrightarrow>
   frames_ok mm'"
  unfolding frames_ok_def frame_addrs_def by force

lemma write_spec:
  assumes "heap_ok mm" "write_addr sz mm a v = (r, mm')"
  shows "heap_ok mm'" "next_addr mm' = next_addr mm"
    "\<And>b. (heap mm' b = None) = (heap mm b = None)"
    "stack_frames mm' = stack_frames mm"
    "heap mm a = None \<Longrightarrow> mm' = mm \<and> isl r"
proof -
  show "heap_ok mm'"
  proof (cases "heap mm a")
    case None
    then show ?thesis using assms by (simp add: write_addr_def)
  next
    case (Some obj)
    then have eq: "mm' = mm\<lparr>used_heap_size := used_heap_size mm + (sz v - sz (obj_value obj)),
                  heap := (heap mm)(a \<mapsto> obj\<lparr>obj_value := v\<rparr>)\<rparr>"
      using assms(2) by (simp add: write_addr_def Let_def)
    show ?thesis
      using heap_okD [OF assms(1) Some]
      by (intro heap_ok_step [OF assms(1)]) (auto simp: eq split: if_splits)
  qed
  show "next_addr mm' = next_addr mm" "stack_frames mm' = stack_frames mm"
    "heap mm a = None \<Longrightarrow> mm' = mm \<and> isl r"
    "\<And>b. (heap mm' b = None) = (heap mm b = None)"
    using assms(2) by (auto simp: write_addr_def Let_def split: option.splits if_splits)
qed

lemma read_spec: "read_addr mm a = (r, mm') \<Longrightarrow> mm' = mm"
  by (auto simp: read_addr_def split: option.splits)

lemma heap_ok_cong:
  "heap mm' = heap mm \<Longrightarrow> next_addr mm' = next_addr mm \<Longrightarrow> heap_ok mm' = heap_ok mm"
  by (simp add: heap_ok_def)

lemma dict_set_snd: "set (map snd (dict_set d k v)) \<subseteq> insert v (set (map snd d))"
proof (induction d)
  case Nil
  show ?case by simp
next
  case (Cons p d)
  obtain k' v' where p: "p = (k', v')" by (cases p)
  show ?case
  proof (cases "k' = k")
    case True
    then show ?thesis using p by auto
  next
    case False
    have "set (map snd (dict_set (p # d) k v)) = insert v' (set (map snd (dict_set d k v)))"
      using False p by simp
    also have "\<dots> \<subseteq> insert v' (insert v (set (map snd d)))"
      using Cons.IH by blast
    also have "\<dots> = insert v (set (map snd (p # d)))"
      using p by auto
    finally show ?thesis .
  qed
qed

lemma dict_set_distinct:
  "distinct (map snd d @ R) \<Longrightarrow> v \<notin> set (map snd d @ R) \<Longrightarrow>
   distinct (map snd (dict_set d k v) @ R)"
proof (induction d)
  case Nil
  then show ?case by simp
next
  case (Cons p d)
  obtain k' v' where p: "p = (k', v')" by (cases p)
  show ?case
  proof (cases "k' = k")
    case True
    then show ?thesis using Cons.prems p by auto
  next
    case False
    have ih: "distinct (map snd (dict_set d k v) @ R)"
      using Cons.IH Cons.prems by auto
    have "v' \<notin> set (map snd (dict_set d k v))"
      using dict_set_snd [of d k v] Cons.prems p by auto
    then show ?thesis using ih False Cons.prems p by auto
  qed
qed

lemma pop_spec:
  assumes ok: "heap_ok mm" "frames_ok mm" and pop: "pop_stack_frame sz mm = (r, mm')"
  shows "step_post mm Pop_stack_frame mm'"
    and "\<And>frame rest a obj. stack_frames mm = frame # rest \<Longrightarrow> r = Inr () \<Longrightarrow>
           a \<in> snd ` set frame \<Longrightarrow> heap mm a = Some obj \<Longrightarrow> ref_count obj = 1 \<Longrightarrow>
           heap mm' a = None"
proof -
  have "step_post mm Pop_stack_frame mm' \<and>
     (\<forall>frame rest a obj. stack_frames mm = frame # rest \<longrightarrow> r = Inr () \<longrightarrow>
           a \<in> snd ` set frame \<longrightarrow> heap mm a = Some obj \<longrightarrow> ref_count obj = 1 \<longrightarrow>
           heap mm' a = None)"
  proof (cases "stack_frames mm")
    case Nil
    then have "mm' = mm" using pop by (simp add: pop_stack_frame_def)
    then show ?thesis using ok Nil by (simp add: step_post_same)
  next
    case (Cons frame rest)
    define popped where "popped = mm\<lparr>stack_frames := rest,
                           current_frame_vars :=
                             (case current_frame_vars mm of
                                Top_frame \<Rightarrow> Detached frame
                              | Detached d \<Rightarrow> Detached d)\<rparr>"
    obtain r1 mm1 where rel: "release_frame sz popped frame = (r1, mm1)"
      by (cases "release_frame sz popped frame")
    have hp: "heap_ok popped"
      using ok(1) heap_ok_cong [of popped mm] by (simp add: popped_def)
    have dist: "distinct (map snd frame)" "distinct (concat (map (map snd) rest))"
      "\<forall>a \<in> set (concat (map (map snd) rest)). a < next_addr mm"
      using ok(2) Cons by (auto simp: frames_ok_def frame_addrs_def)
    note rp = release_postD [OF release_frame_spec [OF hp dist(1) rel]]
    have pheap: "heap popped = heap mm" "next_addr popped = next_addr mm"
      "stack_frames popped = rest"
      by (simp_all add: popped_def)
    have res: "r = r1" "heap mm' = heap mm1" "next_addr mm' = next_addr mm1"
      "stack_frames mm' = rest"
      using pop Cons rel rp(3) pheap(3)
      by (auto simp: pop_stack_frame_def popped_def [symmetric] Let_def split: sum.splits)
    have 1: "heap_ok mm'"
      using rp(1) heap_ok_cong [of mm' mm1] res by simp
    have 2: "frames_ok mm'"
      using dist res rp(2) pheap by (simp add: frames_ok_def frame_addrs_def)
    have 3: "next_addr mm \<le> next_addr mm'"
      using res rp(2) pheap by simp
    have 4: "\<And>a. heap mm a = None \<Longrightarrow> a < next_addr mm \<Longrightarrow> heap mm' a = None"
    proof -
      fix a assume "heap mm a = None"
      then have "heap popped a = None" by (simp only: pheap)
      then have "heap mm1 a = None" by (rule rp(6))
      then show "heap mm' a = None" by (simp only: res)
    qed
    have 5: "\<And>a obj. heap mm a = Some obj \<Longrightarrow> heap mm' a = None \<Longrightarrow>
         ref_count obj = 1 \<and>
         (Pop_stack_frame = Dec_ref a \<or>
          Pop_stack_frame = Pop_stack_frame \<and>
            (\<exists>frame rest. stack_frames mm = frame # rest \<and> a \<in> snd ` set frame))"
    proof -
      fix a obj assume h: "heap mm a = Some obj" "heap mm' a = None"
      have "heap popped a = Some obj" using h(1) by (simp only: pheap)
      moreover have "heap mm1 a = None" using h(2) by (simp only: res)
      ultimately have "ref_count obj = 1 \<and> a \<in> snd ` set frame" by (rule rp(7))
      then show "ref_count obj = 1 \<and>
         (Pop_stack_frame = Dec_ref a \<or>
          Pop_stack_frame = Pop_stack_frame \<and>
            (\<exists>frame rest. stack_frames mm = frame # rest \<and> a \<in> snd ` set frame))"
        using Cons by blast
    qed
    have 6: "\<forall>frame' rest' a obj. stack_frames mm = frame' # rest' \<longrightarrow> r = Inr () \<longrightarrow>
           a \<in> snd ` set frame' \<longrightarrow> heap mm a = Some obj \<longrightarrow> ref_count obj = 1 \<longrightarrow>
           heap mm' a = None"
    proof (intro allI impI)
      fix frame' rest' a obj
      assume h: "stack_frames mm = frame' # rest'" "r = Inr ()" "a \<in> snd ` set frame'"
        "heap mm a = Some obj" "ref_count obj = 1"
      have f: "frame' = frame" using h(1) Cons by simp
      have "r1 = Inr ()" using h(2) res(1) by simp
      moreover have "a \<in> snd ` set frame" using h(3) f by simp
      moreover have "heap popped a = Some obj" using h(4) by (simp only: pheap)
      ultimately have "heap mm1 a = None" using h(5) by (rule rp(8))
      then show "heap mm' a = None" by (simp only: res)
    qed
    show ?thesis using step_postI [OF 1 2 3 4 5] 6 by (rule conjI)
  qed
  note both = this
  show "step_post mm Pop_stack_frame mm'"
    using both by (rule conjunct1)
  show "\<And>frame rest a obj. stack_frames mm = frame # rest \<Longrightarrow> r = Inr () \<Longrightarrow>
           a \<in> snd ` set frame \<Longrightarrow> heap mm a = Some obj \<Longrightarrow> ref_count obj = 1 \<Longrightarrow>
           heap mm' a = None"
    by (rule both [THEN conjunct2, rule_format])
qed

lemma frames_okI:
  "distinct (frame_addrs m) \<Longrightarrow> (\<And>a. a \<in> set (frame_addrs m) \<Longrightarrow> a < next_addr m) \<Longrightarrow>
   frames_ok m"
  by (simp add: frames_ok_def)

lemma bind_current_heap:
  "heap (bind_current mm nm addr) = heap mm"
  "next_addr (bind_current mm nm addr) = next_addr mm"
  by (simp_all add: bind_current_def split: frame_ref.splits list.splits)

lemma bind_current_frames:
  assumes "distinct (frame_addrs mm)" "\<And>a. a \<in> set (frame_addrs mm) \<Longrightarrow> a < addr"
    "next_addr mm = addr + 1"
  shows "frames_ok (bind_current mm nm addr)"
proof (cases "current_frame_vars mm")
  case (Detached d)
  then have fa: "frame_addrs (bind_current mm nm addr) = frame_addrs mm"
    by (simp add: bind_current_def frame_addrs_def)
  show ?thesis
  proof (rule frames_okI)
    show "distinct (frame_addrs (bind_current mm nm addr))"
      unfolding fa by (rule assms(1))
    fix a assume "a \<in> set (frame_addrs (bind_current mm nm addr))"
    then have "a < addr" unfolding fa by (rule assms(2))
    then show "a < next_addr (bind_current mm nm addr)"
      unfolding bind_current_heap assms(3) by simp
  qed
next
  case Top_frame
  show ?thesis
  proof (cases "stack_frames mm")
    case Nil
    then have fa: "frame_addrs (bind_current mm nm addr) = frame_addrs mm"
      using Top_frame by (simp add: bind_current_def frame_addrs_def)
    show ?thesis
    proof (rule frames_okI)
      show "distinct (frame_addrs (bind_current mm nm addr))"
        unfolding fa by (rule assms(1))
      fix a assume "a \<in> set (frame_addrs (bind_current mm nm addr))"
      then have "a < addr" unfolding fa by (rule assms(2))
      then show "a < next_addr (bind_current mm nm addr)"
        unfolding bind_current_heap assms(3) by simp
    qed
  next
    case (Cons frame rest)
    define R where "R = concat (map (map snd) rest)"
    have fa: "frame_addrs mm = map snd frame @ R"
      using Cons by (simp add: frame_addrs_def R_def)
    have eq: "frame_addrs (bind_current mm nm addr) = map snd (dict_set frame nm addr) @ R"
      using Cons Top_frame by (simp add: bind_current_def frame_addrs_def R_def)
    have fresh: "addr \<notin> set (map snd frame @ R)"
    proof
      assume "addr \<in> set (map snd frame @ R)"
      then have "addr < addr" unfolding fa [symmetric] by (rule assms(2))
      then show False by simp
    qed
    have d0: "distinct (map snd frame @ R)" using assms(1) unfolding fa .
    have d: "distinct (map snd (dict_set frame nm addr) @ R)"
      using d0 fresh by (rule dict_set_distinct)
    show ?thesis
    proof (rule frames_okI)
      show "distinct (frame_addrs (bind_current mm nm addr))"
        unfolding eq by (rule d)
      fix a assume "a \<in> set (frame_addrs (bind_current mm nm addr))"
      then have "a \<in> set (map snd (dict_set frame nm addr)) \<or> a \<in> set R"
        unfolding eq by simp
      then have "a = addr \<or> a \<in> set (map snd frame @ R)"
        using dict_set_snd [of frame nm addr] by auto
      then have "a = addr \<or> a < addr"
        using assms(2) unfolding fa by blast
      then show "a < next_addr (bind_current mm nm addr)"
        unfolding bind_current_heap assms(3) by auto
    qed
  qed
qed

lemma allocate_step:
  assumes ok: "heap_ok mm" "frames_ok mm" and al: "allocate sz mm v = (r, mm')"
  shows "step_post mm op mm'"
proof (rule step_postI)
  note sp = allocate_spec [OF ok(1) al]
  show "heap_ok mm'" by (rule sp(1))
  show "frames_ok mm'" using ok(2) sp(5) sp(2) by (rule frames_ok_same)
  show "next_addr mm \<le> next_addr mm'" by (rule sp(2))
  show "\<And>a. heap mm a = None \<Longrightarrow> a < next_addr mm \<Longrightarrow> heap mm' a = None"
    using sp(3) by simp
  show "\<And>a obj. heap mm a = Some obj \<Longrightarrow> heap mm' a = None \<Longrightarrow>
         ref_count obj = 1 \<and>
         (op = Dec_ref a \<or>
          op = Pop_stack_frame \<and>
            (\<exists>frame rest. stack_frames mm = frame # rest \<and> a \<in> snd ` set frame))"
  proof -
    fix a obj assume h: "heap mm a = Some obj" "heap mm' a = None"
    have "heap mm' a = heap mm a" using h(1) sp(4) [of a] by simp
    then show "ref_count obj = 1 \<and>
         (op = Dec_ref a \<or>
          op = Pop_stack_frame \<and>
            (\<exists>frame rest. stack_frames mm = frame # rest \<and> a \<in> snd ` set frame))"
      using h by simp
  qed
qed



lemma declare_step:
  assumes ok: "heap_ok mm" "frames_ok mm"
    and de: "declare_local_variable sz mm nm v = (r, mm')"
  shows "step_post mm op mm'"
proof -
  obtain r1 mm1 where al: "allocate sz mm v = (r1, mm1)" by (cases "allocate sz mm v")
  note sp = allocate_spec [OF ok(1) al]
  have st1: "step_post mm op mm1" by (rule allocate_step [OF ok al])
  show ?thesis
  proof (cases r1)
    case (Inl e)
    then have "mm' = mm1" using de al by (simp add: declare_local_variable_def)
    then show ?thesis using st1 by simp
  next
    case (Inr addr)
    then have eq: "mm' = bind_current mm1 nm addr"
      using de al by (simp add: declare_local_variable_def)
    have ad: "addr = next_addr mm" "next_addr mm1 = addr + 1" using sp(7) [OF Inr] by simp_all
    have fa: "frame_addrs mm1 = frame_addrs mm" using sp(5) by (simp add: frame_addrs_def)
    have pre1: "distinct (frame_addrs mm1)"
      using ok(2) unfolding fa frames_ok_def by (rule conjunct1)
    have pre2: "\<And>a. a \<in> set (frame_addrs mm1) \<Longrightarrow> a < addr"
      using ok(2) unfolding fa frames_ok_def ad(1) by blast
    note h1 = step_postD [OF st1]
    have same: "heap mm' = heap mm1" "next_addr mm' = next_addr mm1"
      unfolding eq by (rule bind_current_heap)+
    have 1: "heap_ok mm'" using heap_ok_cong [OF same] h1(1) by simp
    have 2: "frames_ok mm'" unfolding eq by (rule bind_current_frames [OF pre1 pre2 ad(2)])
    have 3: "next_addr mm \<le> next_addr mm'" using h1(3) unfolding same .
    have 4: "\<And>a. heap mm a = None \<Longrightarrow> a < next_addr mm \<Longrightarrow> heap mm' a = None"
      unfolding same by (rule h1(4))
    have 5: "\<And>a obj. heap mm a = Some obj \<Longrightarrow> heap mm' a = None \<Longrightarrow>
         ref_count obj = 1 \<and>
         (op = Dec_ref a \<or>
          op = Pop_stack_frame \<and>
            (\<exists>frame rest. stack_frames mm = frame # rest \<and> a \<in> snd ` set frame))"
      unfolding same by (rule h1(5))
    show ?thesis by (rule step_postI [OF 1 2 3 4 5])
  qed
qed

lemma inc_ref_step:
  assumes ok: "heap_ok mm" "frames_ok mm" and st: "inc_ref mm a = (r, mm')"
  shows "step_post mm op mm'"
proof (rule step_postI)
  note sp = inc_ref_spec [OF ok(1) st]
  show "heap_ok mm'" by (rule sp(1))
  show "frames_ok mm'" using ok(2) sp(4) by (rule frames_ok_same) (simp add: sp(2))
  show "next_addr mm \<le> next_addr mm'" by (simp add: sp(2))
  show "\<And>b. heap mm b = None \<Longrightarrow> b < next_addr mm \<Longrightarrow> heap mm' b = None"
    by (simp only: sp(3))
  show "\<And>b obj. heap mm b = Some obj \<Longrightarrow> heap mm' b = None \<Longrightarrow>
         ref_count obj = 1 \<and>
         (op = Dec_ref b \<or>
          op = Pop_stack_frame \<and>
            (\<exists>frame rest. stack_frames mm = frame # rest \<and> b \<in> snd ` set frame))"
    by (simp only: sp(3)) simp
qed

lemma write_step:
  assumes ok: "heap_ok mm" "frames_ok mm" and st: "write_addr sz mm a v = (r, mm')"
  shows "step_post mm op mm'"
proof (rule step_postI)
  note sp = write_spec [OF ok(1) st]
  show "heap_ok mm'" by (rule sp(1))
  show "frames_ok mm'" using ok(2) sp(4) by (rule frames_ok_same) (simp add: sp(2))
  show "next_addr mm \<le> next_addr mm'" by (simp add: sp(2))
  show "\<And>b. heap mm b = None \<Longrightarrow> b < next_addr mm \<Longrightarrow> heap mm' b = None"
    by (simp only: sp(3))
  show "\<And>b obj. heap mm b = Some obj \<Longrightarrow> heap mm' b = None \<Longrightarrow>
         ref_count obj = 1 \<and>
         (op = Dec_ref b \<or>
          op = Pop_stack_frame \<and>
            (\<exists>frame rest. stack_frames mm = frame # rest \<and> b \<in> snd ` set frame))"
    by (simp only: sp(3)) simp
qed

lemma dec_ref_step:
  assumes ok: "heap_ok mm" "frames_ok mm" and st: "dec_ref sz mm a = (r, mm')"
  shows "step_post mm (Dec_ref a) mm'"
proof (rule step_postI)
  note sp = dec_ref_spec [OF ok(1) st]
  show "heap_ok mm'" by (rule sp(1))
  show "frames_ok mm'" using ok(2) sp(4) by (rule frames_ok_same) (simp add: sp(2))
  show "next_addr mm \<le> next_addr mm'" by (simp add: sp(2))
  show "heap mm' b = None" if h: "heap mm b = None" "b < next_addr mm" for b
  proof (cases "b = a")
    case True
    then have "mm' = mm" using sp(6) h(1) by simp
    then show ?thesis using h(1) by simp
  next
    case False
    then show ?thesis using sp(3) [of b] h(1) by simp
  qed
  show "ref_count obj = 1 \<and>
         (Dec_ref a = Dec_ref b \<or>
          Dec_ref a = Pop_stack_frame \<and>
            (\<exists>frame rest. stack_frames mm = frame # rest \<and> b \<in> snd ` set frame))"
    if h: "heap mm b = Some obj" "heap mm' b = None" for b obj
  proof (cases "b = a")
    case True
    have "heap mm' a = (if ref_count obj = 1 then None
                        else Some (obj\<lparr>ref_count := ref_count obj - 1\<rparr>))"
      using sp(7) [of obj] h(1) True by simp
    then have "ref_count obj = 1" using h(2) True by (simp split: if_splits)
    then show ?thesis using True by simp
  next
    case False
    then have "heap mm' b = heap mm b" by (rule sp(3))
    then show ?thesis using h by simp
  qed
qed

lemma lift_resultD:
  "lift_result f x = (r, mm') \<Longrightarrow> \<exists>r0. x = (r0, mm') \<and> (r = Inr Unit_result \<longrightarrow> isl r0 = False)"
  by (cases x) (auto simp: lift_result_def split: sum.splits)

lemma lift_result_snd: "snd (lift_result f x) = snd x"
  by (cases x) (auto simp: lift_result_def split: sum.splits)

lemma mm_step_post:
  assumes ok: "heap_ok mm" "frames_ok mm"
  shows "step_post mm op (snd (mm_step sz op mm))"
proof (cases op)
  case (Allocate v)
  show ?thesis unfolding Allocate mm_step.simps lift_result_snd
    by (rule allocate_step [OF ok]) (rule surjective_pairing)
next
  case (Deallocate a)
  have "snd (deallocate sz mm a) = mm"
    using deallocate_spec(1) [OF ok(1), of sz a] by (metis surjective_pairing)
  then show ?thesis unfolding Deallocate mm_step.simps lift_result_snd
    using step_post_same [OF ok] by simp
next
  case (Inc_ref a)
  show ?thesis unfolding Inc_ref mm_step.simps lift_result_snd
    by (rule inc_ref_step [OF ok]) (rule surjective_pairing)
next
  case (Dec_ref a)
  show ?thesis unfolding Dec_ref mm_step.simps lift_result_snd
    by (rule dec_ref_step [OF ok]) (rule surjective_pairing)
next
  case (Read a)
  have "snd (read_addr mm a) = mm"
    using read_spec [of mm a] by (metis surjective_pairing)
  then show ?thesis unfolding Read mm_step.simps lift_result_snd
    using step_post_same [OF ok] by simp
next
  case (Write a v)
  show ?thesis unfolding Write mm_step.simps lift_result_snd
    by (rule write_step [OF ok]) (rule surjective_pairing)
next
  case Push_stack_frame
  have "frames_ok (push_stack_frame mm)"
    using ok(2) by (simp add: frames_ok_def frame_addrs_def push_stack_frame_def)
  moreover have "heap_ok (push_stack_frame mm)"
    using ok(1) by (simp add: heap_ok_def push_stack_frame_def)
  ultimately show ?thesis unfolding Push_stack_frame mm_step.simps snd_conv
    by (intro step_postI) (simp_all add: push_stack_frame_def)
next
  case Pop_stack_frame
  show ?thesis unfolding Pop_stack_frame mm_step.simps lift_result_snd
    by (rule pop_spec(1) [OF ok]) (rule surjective_pairing)
next
  case (Declare_local_variable nm v)
  show ?thesis unfolding Declare_local_variable mm_step.simps lift_result_snd
    by (rule declare_step [OF ok]) (rule surjective_pairing)
next
  case (Get_local_variable nm)
  have "snd (get_local_variable mm nm) = mm"
    using read_spec [of mm] by (auto simp: get_local_variable_def split: option.splits)
       (metis surjective_pairing snd_conv)
  then show ?thesis unfolding Get_local_variable mm_step.simps lift_result_snd
    using step_post_same [OF ok] by simp
next
  case (Set_local_variable nm v)
  show ?thesis
  proof (cases "map_of (current_frame mm) nm")
    case None
    then have "snd (set_local_variable sz mm nm v) = mm"
      by (simp add: set_local_variable_def)
    then show ?thesis unfolding Set_local_variable mm_step.simps lift_result_snd
      using step_post_same [OF ok] by simp
  next
    case (Some a)
    then have "set_local_variable sz mm nm v = write_addr sz mm a v"
      by (simp add: set_local_variable_def)
    then show ?thesis unfolding Set_local_variable mm_step.simps lift_result_snd
      by (simp only:) (rule write_step [OF ok], rule surjective_pairing)
  qed
qed

lemma init_ok: "heap_ok (MemoryManager_init hs)" "frames_ok (MemoryManager_init hs)"
  by (simp_all add: heap_ok_def frames_ok_def frame_addrs_def MemoryManager_init_def)

lemma mm_run_ok:
  assumes "heap_ok mm" "frames_ok mm"
  shows "heap_ok (mm_run sz ops mm) \<and> frames_ok (mm_run sz ops mm) \<and>
         next_addr mm \<le> next_addr (mm_run sz ops mm) \<and>
         (\<forall>a. heap mm a = None \<longrightarrow> a < next_addr mm \<longrightarrow> heap (mm_run sz ops mm) a = None)"
  using assms
proof (induction ops arbitrary: mm)
  case Nil
  then show ?case by simp
next
  case (Cons op ops)
  define mm1 where "mm1 = snd (mm_step sz op mm)"
  have sp: "step_post mm op mm1"
    unfolding mm1_def by (rule mm_step_post [OF Cons.prems])
  note d = step_postD [OF sp]
  have ih: "heap_ok (mm_run sz ops mm1) \<and> frames_ok (mm_run sz ops mm1) \<and>
         next_addr mm1 \<le> next_addr (mm_run sz ops mm1) \<and>
         (\<forall>a. heap mm1 a = None \<longrightarrow> a < next_addr mm1 \<longrightarrow> heap (mm_run sz ops mm1) a = None)"
    by (rule Cons.IH [OF d(1) d(2)])
  have run: "mm_run sz (op # ops) mm = mm_run sz ops mm1"
    by (simp add: mm1_def)
  have 3: "next_addr mm \<le> next_addr (mm_run sz ops mm1)"
    using d(3) ih [THEN conjunct2, THEN conjunct2, THEN conjunct1] by linarith
  have 4: "\<forall>a. heap mm a = None \<longrightarrow> a < next_addr mm \<longrightarrow> heap (mm_run sz ops mm1) a = None"
  proof (intro allI impI)
    fix a assume h: "heap mm a = None" "a < next_addr mm"
    have "heap mm1 a = None" using h by (rule d(4))
    moreover have "a < next_addr mm1" using h(2) d(3) by linarith
    ultimately show "heap (mm_run sz ops mm1) a = None"
      using ih [THEN conjunct2, THEN conjunct2, THEN conjunct2, rule_format] by blast
  qed
  show ?case unfolding run
    by (intro conjI ih [THEN conjunct1] ih [THEN conjunct2, THEN conjunct1] 3 4)
qed

lemma freed_access:
  assumes "heap s a = None"
  shows "read_addr s a = (Inl (MemoryError (''Invalid memory read at address '' @ str_int a)), s)"
    "write_addr sz s a v = (Inl (MemoryError (''Invalid memory write at address '' @ str_int a)), s)"
    "inc_ref s a = (Inl (MemoryError (''Invalid inc_ref on address '' @ str_int a)), s)"
    "dec_ref sz s a = (Inl (MemoryError (''Invalid dec_ref on address '' @ str_int a)), s)"
    "deallocate sz s a = (Inl (MemoryError (''Invalid free at address '' @ str_int a)), s)"
  using assms
  by (simp_all add: read_addr_def write_addr_def inc_ref_def dec_ref_def deallocate_def)

text \<open>
  C7. For every manager \<open>s\<close> that a sequence of operations builds from a new
  \<^verbatim>\<open>MemoryManager\<close>, whatever they raised on the way:
  every object on the heap has a reference count of at least one, so no count is
  negative;
  an operation takes an object off the heap only when its count was one and the
  operation is \<^verbatim>\<open>dec_ref\<close> of its address, or \<^verbatim>\<open>pop_stack_frame\<close> with the
  address in the popped frame (which calls \<^verbatim>\<open>dec_ref\<close> on it);
  \<^verbatim>\<open>dec_ref\<close> of an address on the heap returns normally and deallocates the object
  exactly when its count was one;
  a \<^verbatim>\<open>pop_stack_frame\<close> that returns normally has deallocated every local of the
  frame whose count was one;
  and once a step has deallocated an address, it stays off the heap through every later
  sequence of operations (addresses are not handed out twice), where \<^verbatim>\<open>read\<close>,
  \<^verbatim>\<open>write\<close>, \<^verbatim>\<open>inc_ref\<close>, \<^verbatim>\<open>dec_ref\<close> and a second \<^verbatim>\<open>deallocate\<close> of it
  raise MemoryError and change nothing.
\<close>

theorem heap_invariants:
  assumes reach: "s = mm_run sz ops (MemoryManager_init hs)"
  shows
    "(\<forall>a obj. heap s a = Some obj \<longrightarrow> 1 \<le> ref_count obj) \<and>
     (\<forall>op a obj. heap s a = Some obj \<longrightarrow> heap (snd (mm_step sz op s)) a = None \<longrightarrow>
        ref_count obj = 1 \<and>
        (op = Dec_ref a \<or>
         op = Pop_stack_frame \<and>
           (\<exists>frame rest. stack_frames s = frame # rest \<and> a \<in> snd ` set frame))) \<and>
     (\<forall>a obj. heap s a = Some obj \<longrightarrow>
        fst (dec_ref sz s a) = Inr () \<and>
        (heap (snd (dec_ref sz s a)) a = None) = (ref_count obj = 1)) \<and>
     (\<forall>frame rest nm a obj.
        stack_frames s = frame # rest \<longrightarrow> (nm, a) \<in> set frame \<longrightarrow>
        heap s a = Some obj \<longrightarrow> ref_count obj = 1 \<longrightarrow>
        fst (pop_stack_frame sz s) = Inr () \<longrightarrow>
        heap (snd (pop_stack_frame sz s)) a = None) \<and>
     (\<forall>op a ops' v.
        heap s a \<noteq> None \<longrightarrow> heap (snd (mm_step sz op s)) a = None \<longrightarrow>
        (let s' = mm_run sz ops' (snd (mm_step sz op s))
         in heap s' a = None \<and>
            read_addr s' a =
              (Inl (MemoryError (''Invalid memory read at address '' @ str_int a)), s') \<and>
            write_addr sz s' a v =
              (Inl (MemoryError (''Invalid memory write at address '' @ str_int a)), s') \<and>
            inc_ref s' a =
              (Inl (MemoryError (''Invalid inc_ref on address '' @ str_int a)), s') \<and>
            dec_ref sz s' a =
              (Inl (MemoryError (''Invalid dec_ref on address '' @ str_int a)), s') \<and>
            deallocate sz s' a =
              (Inl (MemoryError (''Invalid free at address '' @ str_int a)), s')))"
proof -
  have ok: "heap_ok s" "frames_ok s"
    unfolding reach
    by (rule mm_run_ok [OF init_ok, THEN conjunct1],
        rule mm_run_ok [OF init_ok, THEN conjunct2, THEN conjunct1])
  have A: "\<forall>a obj. heap s a = Some obj \<longrightarrow> 1 \<le> ref_count obj"
    using heap_okD [OF ok(1)] by blast
  have B: "\<forall>op a obj. heap s a = Some obj \<longrightarrow> heap (snd (mm_step sz op s)) a = None \<longrightarrow>
        ref_count obj = 1 \<and>
        (op = Dec_ref a \<or>
         op = Pop_stack_frame \<and>
           (\<exists>frame rest. stack_frames s = frame # rest \<and> a \<in> snd ` set frame))"
  proof (intro allI impI)
    fix op a obj
    assume h: "heap s a = Some obj" "heap (snd (mm_step sz op s)) a = None"
    show "ref_count obj = 1 \<and>
        (op = Dec_ref a \<or>
         op = Pop_stack_frame \<and>
           (\<exists>frame rest. stack_frames s = frame # rest \<and> a \<in> snd ` set frame))"
      using h by (rule step_postD(5) [OF mm_step_post [OF ok]])
  qed
  have C: "\<forall>a obj. heap s a = Some obj \<longrightarrow>
        fst (dec_ref sz s a) = Inr () \<and>
        (heap (snd (dec_ref sz s a)) a = None) = (ref_count obj = 1)"
  proof (intro allI impI)
    fix a obj assume h: "heap s a = Some obj"
    obtain r mm' where d: "dec_ref sz s a = (r, mm')" by (cases "dec_ref sz s a")
    from dec_ref_spec(7) [OF ok(1) d h]
    show "fst (dec_ref sz s a) = Inr () \<and>
        (heap (snd (dec_ref sz s a)) a = None) = (ref_count obj = 1)"
      unfolding d by simp
  qed
  have D: "\<forall>frame rest nm a obj.
        stack_frames s = frame # rest \<longrightarrow> (nm, a) \<in> set frame \<longrightarrow>
        heap s a = Some obj \<longrightarrow> ref_count obj = 1 \<longrightarrow>
        fst (pop_stack_frame sz s) = Inr () \<longrightarrow>
        heap (snd (pop_stack_frame sz s)) a = None"
  proof (intro allI impI)
    fix frame rest nm a obj
    assume h: "stack_frames s = frame # rest" "(nm, a) \<in> set frame"
      "heap s a = Some obj" "ref_count obj = 1" "fst (pop_stack_frame sz s) = Inr ()"
    obtain r mm' where p: "pop_stack_frame sz s = (r, mm')" by (cases "pop_stack_frame sz s")
    have r: "r = Inr ()" using h(5) p by simp
    have mem: "a \<in> snd ` set frame" using h(2) by force
    have "heap mm' a = None"
      by (rule pop_spec(2) [OF ok p h(1) r mem h(3) h(4)])
    then show "heap (snd (pop_stack_frame sz s)) a = None" unfolding p by simp
  qed
  have E: "\<forall>op a ops' v.
        heap s a \<noteq> None \<longrightarrow> heap (snd (mm_step sz op s)) a = None \<longrightarrow>
        (let s' = mm_run sz ops' (snd (mm_step sz op s))
         in heap s' a = None \<and>
            read_addr s' a =
              (Inl (MemoryError (''Invalid memory read at address '' @ str_int a)), s') \<and>
            write_addr sz s' a v =
              (Inl (MemoryError (''Invalid memory write at address '' @ str_int a)), s') \<and>
            inc_ref s' a =
              (Inl (MemoryError (''Invalid inc_ref on address '' @ str_int a)), s') \<and>
            dec_ref sz s' a =
              (Inl (MemoryError (''Invalid dec_ref on address '' @ str_int a)), s') \<and>
            deallocate sz s' a =
              (Inl (MemoryError (''Invalid free at address '' @ str_int a)), s'))"
  proof (intro allI impI)
    fix op a ops' v
    assume h: "heap s a \<noteq> None" "heap (snd (mm_step sz op s)) a = None"
    define s1 where "s1 = snd (mm_step sz op s)"
    define s' where "s' = mm_run sz ops' s1"
    note d = step_postD [OF mm_step_post [OF ok, of op sz], folded s1_def]
    obtain obj where "heap s a = Some obj" using h(1) by blast
    then have "a < next_addr s" using heap_okD [OF ok(1)] by blast
    then have lt: "a < next_addr s1" using d(3) by linarith
    have gone: "heap s1 a = None" using h(2) unfolding s1_def .
    have "heap s' a = None"
      using mm_run_ok [OF d(1) d(2), of sz ops', THEN conjunct2, THEN conjunct2, THEN conjunct2,
                       rule_format, OF gone lt]
      unfolding s'_def .
    note fa = freed_access [OF this]
    show "let s' = mm_run sz ops' (snd (mm_step sz op s))
         in heap s' a = None \<and>
            read_addr s' a =
              (Inl (MemoryError (''Invalid memory read at address '' @ str_int a)), s') \<and>
            write_addr sz s' a v =
              (Inl (MemoryError (''Invalid memory write at address '' @ str_int a)), s') \<and>
            inc_ref s' a =
              (Inl (MemoryError (''Invalid inc_ref on address '' @ str_int a)), s') \<and>
            dec_ref sz s' a =
              (Inl (MemoryError (''Invalid dec_ref on address '' @ str_int a)), s') \<and>
            deallocate sz s' a =
              (Inl (MemoryError (''Invalid free at address '' @ str_int a)), s')"
      unfolding Let_def s1_def [symmetric] s'_def [symmetric]
      using \<open>heap s' a = None\<close> fa by (intro conjI)
  qed
  show ?thesis by (intro conjI A B C D E)
qed

theorem heap_invariants_witness:
  "heap (mm_run (\<lambda>v. 4) [Push_stack_frame, Declare_local_variable ''x'' (7 :: nat)]
          (MemoryManager_init 1024)) 1
     = Some \<lparr>obj_value = 7, ref_count = 1\<rparr> \<and>
   heap (snd (mm_step (\<lambda>v. 4) Pop_stack_frame
          (mm_run (\<lambda>v. 4) [Push_stack_frame, Declare_local_variable ''x'' (7 :: nat)]
             (MemoryManager_init 1024)))) 1 = None \<and>
   fst (read_addr (snd (mm_step (\<lambda>v. 4) Pop_stack_frame
          (mm_run (\<lambda>v. 4) [Push_stack_frame, Declare_local_variable ''x'' (7 :: nat)]
             (MemoryManager_init 1024)))) 1)
     = Inl (MemoryError ''Invalid memory read at address 1'')"
proof -
  define sz :: "nat \<Rightarrow> int" where "sz = (\<lambda>v. 4)"
  define S where "S = mm_run sz [Push_stack_frame, Declare_local_variable ''x'' (7 :: nat)]
          (MemoryManager_init 1024)"
  have S_eq: "S = \<lparr>heap = [1 \<mapsto> \<lparr>obj_value = 7, ref_count = 1\<rparr>], next_addr = 2,
                   stack_frames = [[(''x'', 1)]], current_frame_vars = Top_frame,
                   heap_size = 1024, used_heap_size = 4\<rparr>"
    by (simp add: S_def sz_def MemoryManager_init_def push_stack_frame_def
                  declare_local_variable_def allocate_def bind_current_def lift_result_def)
  have h1: "heap S 1 = Some \<lparr>obj_value = 7, ref_count = 1\<rparr>"
    by (simp add: S_eq)
  have popped: "heap (snd (mm_step sz Pop_stack_frame S)) 1 = None"
    by (simp add: S_eq pop_stack_frame_def dec_ref_def deallocate_def lift_result_def)
  note inv = heap_invariants [OF S_def]
  have "let s' = mm_run sz [] (snd (mm_step sz Pop_stack_frame S))
        in heap s' 1 = None \<and>
            read_addr s' 1 =
              (Inl (MemoryError (''Invalid memory read at address '' @ str_int 1)), s') \<and>
            write_addr sz s' 1 0 =
              (Inl (MemoryError (''Invalid memory write at address '' @ str_int 1)), s') \<and>
            inc_ref s' 1 =
              (Inl (MemoryError (''Invalid inc_ref on address '' @ str_int 1)), s') \<and>
            dec_ref sz s' 1 =
              (Inl (MemoryError (''Invalid dec_ref on address '' @ str_int 1)), s') \<and>
            deallocate sz s' 1 =
              (Inl (MemoryError (''Invalid free at address '' @ str_int 1)), s')"
    using inv [THEN conjunct2, THEN conjunct2, THEN conjunct2, THEN conjunct2, rule_format,
               of 1 Pop_stack_frame "[]" 0] h1 popped
    by simp
  then have "fst (read_addr (snd (mm_step sz Pop_stack_frame S)) 1)
     = Inl (MemoryError ''Invalid memory read at address 1'')"
    by (simp add: Let_def str_int_def digit_char_def)
  then show ?thesis using h1 popped unfolding S_def sz_def by simp
qed

subsection \<open>Tree-walking interpreter\<close>

lemma callable_False: "callable f = False"
  by (cases f) simp_all

lemma push_env_env: "env (push_env st) = Some (Environment (next_env st) (env st))"
  by (simp add: push_env_def Environment_new_def)

lemma finally_pop_env_Some:
  "env st' = Some e \<Longrightarrow> finally_pop_env (r, st') = (r, st'\<lparr>env := env_parent e\<rparr>)"
  by (simp add: finally_pop_env_def pop_env_def)

lemma define_current_env: "define_current nm v st = (r, st') \<Longrightarrow> env st' = env st"
  by (auto simp: define_current_def Environment_define_def split: option.splits)

lemma Environment_assign_env: "Environment_assign st e nm v = (b, st') \<Longrightarrow> env st' = env st"
proof (induction st e nm v rule: Environment_assign.induct)
  case (1 st a par nm v)
  then show ?case by (auto split: if_splits option.splits)
qed

lemma accept_each_env:
  assumes acc: "\<And>node st r st'. acc node st = Some (r, st') \<Longrightarrow> env st' = env st"
  shows "accept_each acc ss st = Some (r, st') \<Longrightarrow> env st' = env st"
proof (induction ss arbitrary: st)
  case Nil
  then show ?case by simp
next
  case (Cons s ss)
  from Cons.prems obtain r1 st1 where a: "acc s st = Some (r1, st1)"
    by (auto split: option.splits)
  have e1: "env st1 = env st" using acc [OF a] .
  show ?case
  proof (cases r1)
    case (Inl x)
    with Cons.prems a have "st' = st1" by simp
    with e1 show ?thesis by simp
  next
    case (Inr v)
    with Cons.prems a have "accept_each acc ss st1 = Some (r, st')" by simp
    from Cons.IH [OF this] e1 show ?thesis by simp
  qed
qed

lemma accept_all_env:
  assumes acc: "\<And>node st r st'. acc node st = Some (r, st') \<Longrightarrow> env st' = env st"
  shows "accept_all acc ss st = Some (r, st') \<Longrightarrow> env st' = env st"
proof (induction ss arbitrary: st r)
  case Nil
  then show ?case by simp
next
  case (Cons s ss)
  from Cons.prems obtain r1 st1 where a: "acc s st = Some (r1, st1)"
    by (auto split: option.splits)
  have e1: "env st1 = env st" using acc [OF a] .
  show ?case
  proof (cases r1)
    case (Inl x)
    with Cons.prems a have "st' = st1" by simp
    with e1 show ?thesis by simp
  next
    case (Inr v)
    with Cons.prems a obtain r2 where "accept_all acc ss st1 = Some (r2, st')"
      by (auto split: option.splits sum.splits)
    from Cons.IH [OF this] e1 show ?thesis by simp
  qed
qed

lemma while_loop_env:
  assumes acc: "\<And>node st r st'. acc node st = Some (r, st') \<Longrightarrow> env st' = env st"
  shows "while_loop k p acc c body st = Some (r, st') \<Longrightarrow> env st' = env st"
proof (induction k arbitrary: st)
  case 0
  then show ?case by simp
next
  case (Suc k)
  from Suc.prems obtain r1 st1 where a: "acc c st = Some (r1, st1)"
    by (auto split: option.splits)
  have e1: "env st1 = env st" using acc [OF a] .
  show ?case
  proof (cases r1)
    case (Inl x)
    with Suc.prems a have "st' = st1" by simp
    with e1 show ?thesis by simp
  next
    case (Inr v)
    show ?thesis
    proof (cases "truthy p v")
      case False
      with Suc.prems a Inr have "st' = st1" by simp
      with e1 show ?thesis by simp
    next
      case True
      with Suc.prems a Inr obtain r2 st2 where b: "accept_each acc body st1 = Some (r2, st2)"
        by (auto split: option.splits)
      have e2: "env st2 = env st1" using accept_each_env [OF acc b] .
      show ?thesis
      proof (cases r2)
        case (Inl x)
        with Suc.prems a Inr True b have "st' = st2" by simp
        with e1 e2 show ?thesis by simp
      next
        case (Inr w)
        with Suc.prems a \<open>r1 = Inr v\<close> True b have "while_loop k p acc c body st2 = Some (r, st')"
          by simp
        from Suc.IH [OF this] e1 e2 show ?thesis by simp
      qed
    qed
  qed
qed


lemma visit_binary_op_env:
  assumes acc: "\<And>node st r st'. acc node st = Some (r, st') \<Longrightarrow> env st' = env st"
  shows "visit_binary_op p acc left op right l c st = Some (r, st') \<Longrightarrow> env st' = env st"
  unfolding visit_binary_op_def
  by (auto split: option.splits sum.splits dest!: acc)

lemma visit_unary_op_env:
  assumes acc: "\<And>node st r st'. acc node st = Some (r, st') \<Longrightarrow> env st' = env st"
  shows "visit_unary_op p acc op operand l c st = Some (r, st') \<Longrightarrow> env st' = env st"
  unfolding visit_unary_op_def
  by (auto split: option.splits sum.splits dest!: acc)

lemma visit_call_env:
  assumes acc: "\<And>node st r st'. acc node st = Some (r, st') \<Longrightarrow> env st' = env st"
  shows "visit_call p acc callee args l c st = Some (r, st') \<Longrightarrow> env st' = env st"
  unfolding visit_call_def
  by (auto simp: callable_False split: option.splits sum.splits dest!: acc)

lemma visit_if_env:
  assumes acc: "\<And>node st r st'. acc node st = Some (r, st') \<Longrightarrow> env st' = env st"
  shows "visit_if p acc condition tb eb st = Some (r, st') \<Longrightarrow> env st' = env st"
  unfolding visit_if_def
  by (auto split: option.splits sum.splits if_splits dest!: acc)

lemma visit_return_env:
  assumes acc: "\<And>node st r st'. acc node st = Some (r, st') \<Longrightarrow> env st' = env st"
  shows "visit_return acc v st = Some (r, st') \<Longrightarrow> env st' = env st"
  unfolding visit_return_def
  by (auto split: option.splits sum.splits dest!: acc)

lemma visit_variable_decl_env:
  assumes acc: "\<And>node st r st'. acc node st = Some (r, st') \<Longrightarrow> env st' = env st"
  shows "visit_variable_decl acc nm i st = Some (r, st') \<Longrightarrow> env st' = env st"
  unfolding visit_variable_decl_def
  by (auto split: option.splits sum.splits dest!: acc define_current_env)

lemma visit_assignment_env:
  assumes acc: "\<And>node st r st'. acc node st = Some (r, st') \<Longrightarrow> env st' = env st"
  shows "visit_assignment acc target v l c st = Some (r, st') \<Longrightarrow> env st' = env st"
  unfolding visit_assignment_def
  by (auto split: option.splits sum.splits prod.splits bool.splits
           dest!: acc Environment_assign_env)

lemma visit_block_env:
  assumes acc: "\<And>node st r st'. acc node st = Some (r, st') \<Longrightarrow> env st' = env st"
  shows "visit_block acc ss st = Some (r, st') \<Longrightarrow> env st' = env st"
proof -
  assume a: "visit_block acc ss st = Some (r, st')"
  then obtain r1 st1 where b: "accept_each acc ss (push_env st) = Some (r1, st1)"
    by (auto simp: visit_block_def split: option.splits)
  have e1: "env st1 = Some (Environment (next_env st) (env st))"
    using accept_each_env [of acc, OF acc b] by (simp add: push_env_env)
  from a b have "\<exists>r2. finally_pop_env (r2, st1) = (r, st')"
    by (auto simp: visit_block_def split: sum.splits)
  then show ?thesis by (auto simp: finally_pop_env_Some [OF e1])
qed

lemma visit_while_env:
  assumes acc: "\<And>node st r st'. acc node st = Some (r, st') \<Longrightarrow> env st' = env st"
  shows "visit_while k p acc c b st = Some (r, st') \<Longrightarrow> env st' = env st"
  unfolding visit_while_def by (rule while_loop_env [of acc, OF acc])

lemma visit_for_env:
  assumes acc: "\<And>node st r st'. acc node st = Some (r, st') \<Longrightarrow> env st' = env st"
  shows "visit_for k p acc i c inc b st = Some (r, st') \<Longrightarrow> env st' = env st"
proof -
  assume a: "visit_for k p acc i c inc b st = Some (r, st')"
  then obtain r1 st1 where b: "acc i (push_env st) = Some (r1, st1)"
    by (auto simp: visit_for_def split: option.splits)
  have e1: "env st1 = Some (Environment (next_env st) (env st))"
    using acc [OF b] by (simp add: push_env_env)
  show ?thesis
  proof (cases r1)
    case (Inl x)
    with a b have "(r, st') = finally_pop_env (Inl x, st1)" by (simp add: visit_for_def)
    then show ?thesis by (simp add: finally_pop_env_Some [OF e1])
  next
    case (Inr v)
    with a b obtain r2 st2 where w: "while_loop k p acc c [b, inc] st1 = Some (r2, st2)"
      and f: "(r, st') = finally_pop_env (r2, st2)"
      by (auto simp: visit_for_def split: option.splits)
    have e2: "env st2 = Some (Environment (next_env st) (env st))"
      using while_loop_env [of acc, OF acc w] e1 by simp
    from f show ?thesis by (simp add: finally_pop_env_Some [OF e2])
  qed
qed

lemma visit_env:
  assumes acc: "\<And>node st r st'. acc node st = Some (r, st') \<Longrightarrow> env st' = env st"
    and v: "visit k p acc node st = Some (r, st')"
  shows "env st' = env st"
proof (cases node)
  case (BinaryOpNode x11 x12 x13 x14 x15)
  with v have "visit_binary_op p acc x11 x12 x13 x14 x15 st = Some (r, st')" by simp
  then show ?thesis by (rule visit_binary_op_env [rotated]) (rule acc)
next
  case (UnaryOpNode x21 x22 x23 x24)
  with v have "visit_unary_op p acc x21 x22 x23 x24 st = Some (r, st')" by simp
  then show ?thesis by (rule visit_unary_op_env [rotated]) (rule acc)
next
  case (LiteralNode x31 x32 x33)
  with v show ?thesis by auto
next
  case (VariableNode x41 x42 x43)
  with v show ?thesis by (auto simp: visit_variable_def Let_def split: option.splits if_splits)
next
  case (CallNode x51 x52 x53 x54)
  with v have "visit_call p acc x51 x52 x53 x54 st = Some (r, st')" by simp
  then show ?thesis by (rule visit_call_env [rotated]) (rule acc)
next
  case (IfNode x61 x62 x63 x64 x65)
  with v have "visit_if p acc x61 x62 x63 st = Some (r, st')" by simp
  then show ?thesis by (rule visit_if_env [rotated]) (rule acc)
next
  case (WhileNode x71 x72 x73 x74)
  with v have "visit_while k p acc x71 x72 st = Some (r, st')" by simp
  then show ?thesis by (rule visit_while_env [rotated]) (rule acc)
next
  case (ForNode x81 x82 x83 x84 x85 x86)
  with v have "visit_for k p acc x81 x82 x83 x84 st = Some (r, st')" by simp
  then show ?thesis by (rule visit_for_env [rotated]) (rule acc)
next
  case (ReturnNode x91 x92 x93)
  with v have "visit_return acc x91 st = Some (r, st')" by simp
  then show ?thesis by (rule visit_return_env [rotated]) (rule acc)
next
  case (BlockNode x101 x102 x103)
  with v have "visit_block acc x101 st = Some (r, st')" by simp
  then show ?thesis by (rule visit_block_env [rotated]) (rule acc)
next
  case (FunctionDefNode x111 x112 x113 x114 x115)
  with v show ?thesis by (auto simp: visit_function_def_def dest!: define_current_env)
next
  case (VariableDeclNode x121 x122 x123 x124)
  with v have "visit_variable_decl acc x121 x122 st = Some (r, st')" by simp
  then show ?thesis by (rule visit_variable_decl_env [rotated]) (rule acc)
next
  case (AssignmentNode x131 x132 x133 x134)
  with v have "visit_assignment acc x131 x132 x133 x134 st = Some (r, st')" by simp
  then show ?thesis by (rule visit_assignment_env [rotated]) (rule acc)
next
  case (StructDefNode x141 x142 x143 x144)
  with v show ?thesis by (auto dest!: define_current_env)
next
  case (ImportNode x151 x152 x153)
  with v show ?thesis by (auto simp: visit_import_def)
qed

lemma accept_env: "accept p n node st = Some (r, st') \<Longrightarrow> env st' = env st"
proof (induction n arbitrary: node st r st')
  case 0
  then show ?case by simp
next
  case (Suc n)
  from Suc.prems have "visit n p (accept p n) node st = Some (r, st')" by simp
  then show ?case by (rule visit_env [rotated]) (rule Suc.IH)
qed

lemma map_of_dict_set: "map_of (dict_set d k v) k = Some v"
  by (induction d) auto

lemma Environment_get_local:
  "map_of (env_values st (env_addr e)) nm = Some v \<Longrightarrow> Environment_get st e nm = v"
  by (cases e) simp

lemma Environment_get_unbound:
  "fst (Environment_assign st e nm v) = False \<Longrightarrow> Environment_get st e nm = Basic PNone"
proof (induction st e nm v rule: Environment_assign.induct)
  case (1 st a par nm v)
  then show ?case
    by (cases par) (auto simp: dict_has_def split: if_splits)
qed

lemma visit_variable_None:
  "env st = Some e \<Longrightarrow> Environment_get st e nm = Basic PNone \<Longrightarrow>
   visit_variable nm l c st =
     (Inl (RuntimeError (''Undefined variable '' @ [CHR 0x27] @ nm @ [CHR 0x27]) (Some l) (Some c)), st)"
  by (simp add: visit_variable_def undefined_variable_def)

text \<open>
  C10. Reading a variable whose value is \<^verbatim>\<open>None\<close> raises
  \<^verbatim>\<open>RuntimeError("Undefined variable '...'")\<close> at the position of the read and leaves
  the interpreter as it was. \<^verbatim>\<open>Environment.get\<close> gives \<^verbatim>\<open>None\<close> for a name the
  current environment binds to \<^verbatim>\<open>None\<close> and for a name no environment of the chain
  binds (which is when \<^verbatim>\<open>assign\<close> answers \<^verbatim>\<open>False\<close>). A declaration without
  initializer binds the name to \<^verbatim>\<open>None\<close>, and reading it next raises that error.
\<close>

theorem none_valued_variable_is_undefined:
  assumes "env st = Some e"
  shows "(Environment_get st e nm = Basic PNone \<longrightarrow>
            accept p (Suc n) (VariableNode nm l c) st =
              Some (Inl (RuntimeError (''Undefined variable '' @ [CHR 0x27] @ nm @ [CHR 0x27])
                           (Some l) (Some c)), st))
       \<and> (map_of (env_values st (env_addr e)) nm = Some (Basic PNone) \<longrightarrow>
            Environment_get st e nm = Basic PNone)
       \<and> (fst (Environment_assign st e nm v) = False \<longrightarrow> Environment_get st e nm = Basic PNone)
       \<and> accept p (Suc n) (VariableDeclNode nm None l c) st =
            Some (Inr (Basic PNone), Environment_define st e nm (Basic PNone))
       \<and> accept p (Suc m) (VariableNode nm l' c') (Environment_define st e nm (Basic PNone)) =
            Some (Inl (RuntimeError (''Undefined variable '' @ [CHR 0x27] @ nm @ [CHR 0x27])
                         (Some l') (Some c')), Environment_define st e nm (Basic PNone))"
proof -
  let ?st = "Environment_define st e nm (Basic PNone)"
  have e': "env ?st = Some e"
    using assms by (simp add: Environment_define_def)
  have "map_of (env_values ?st (env_addr e)) nm = Some (Basic PNone)"
    by (simp add: Environment_define_def map_of_dict_set)
  then have g: "Environment_get ?st e nm = Basic PNone"
    by (rule Environment_get_local)
  have a: "Environment_get st e nm = Basic PNone \<longrightarrow>
            accept p (Suc n) (VariableNode nm l c) st =
              Some (Inl (RuntimeError (''Undefined variable '' @ [CHR 0x27] @ nm @ [CHR 0x27])
                           (Some l) (Some c)), st)"
    using assms by (simp add: visit_variable_None)
  have b: "map_of (env_values st (env_addr e)) nm = Some (Basic PNone) \<longrightarrow>
            Environment_get st e nm = Basic PNone"
    by (simp add: Environment_get_local)
  have c: "fst (Environment_assign st e nm v) = False \<longrightarrow> Environment_get st e nm = Basic PNone"
    by (simp add: Environment_get_unbound)
  have d: "accept p (Suc n) (VariableDeclNode nm None l c) st = Some (Inr (Basic PNone), ?st)"
    using assms by (simp add: visit_variable_decl_def define_current_def)
  have f: "accept p (Suc m) (VariableNode nm l' c') ?st =
            Some (Inl (RuntimeError (''Undefined variable '' @ [CHR 0x27] @ nm @ [CHR 0x27])
                         (Some l') (Some c')), ?st)"
    using e' g by (simp add: visit_variable_None)
  from a b c d f show ?thesis by (intro conjI)
qed

theorem none_valued_variable_is_undefined_witness:
  "accept float_free 1 (VariableDeclNode ''x'' None 1 1) Interpreter_init =
     Some (Inr (Basic PNone),
           Environment_define Interpreter_init (Environment 0 None) ''x'' (Basic PNone))
   \<and> accept float_free 1 (VariableNode ''x'' 2 5)
        (Environment_define Interpreter_init (Environment 0 None) ''x'' (Basic PNone)) =
     Some (Inl (RuntimeError (''Undefined variable '' @ [CHR 0x27] @ ''x'' @ [CHR 0x27])
                  (Some 2) (Some 5)),
           Environment_define Interpreter_init (Environment 0 None) ''x'' (Basic PNone))
   \<and> accept float_free 1 (VariableNode ''y'' 3 1) Interpreter_init =
     Some (Inl (RuntimeError (''Undefined variable '' @ [CHR 0x27] @ ''y'' @ [CHR 0x27])
                  (Some 3) (Some 1)), Interpreter_init)"
  using none_valued_variable_is_undefined
          [of Interpreter_init "Environment 0 None" "''x''" float_free 0 1 1 "Basic PNone" 0 2 5]
        none_valued_variable_is_undefined
          [of Interpreter_init "Environment 0 None" "''y''" float_free 0 3 1 "Basic PNone" 0 2 5]
  by (simp add: Interpreter_init_def)

lemma Function_call_arity:
  "length arguments \<noteq> length params \<Longrightarrow>
   Function_call acc (Function fid (FunctionDefNode fname params body line column) closure)
     st arguments =
     Some (Inl (RuntimeError
                  (''Expected '' @ str_int (int (length params)) @ '' arguments but got '' @
                   str_int (int (length arguments)))
                  (Some line) (Some column)),
           snd (Environment_new st closure))"
  by (simp add: Function_call_def Environment_new_def)

lemma call_function_arity:
  "lookup_function fn = Inr ps \<Longrightarrow> length args \<noteq> length ps \<Longrightarrow>
   call_function renv fn args =
     (Inl (RuntimeError_env
             (''Function '' @ [CHR 0x27] @ fn @ [CHR 0x27] @ '' expects '' @
              str_int (int (length ps)) @ '' arguments, got '' @
              str_int (int (length args)) @ ''.'')), renv)"
  by (simp add: call_function_def)

text \<open>
  C9. A call with a number of arguments other than the number of declared parameters
  raises a \<^verbatim>\<open>RuntimeError\<close> whose message holds both numbers, in decimal:
  \<^verbatim>\<open>Function.call\<close> raises \<^verbatim>\<open>Expected <params> arguments but got <arguments>\<close> at
  the position of the declaration, before any parameter is bound and with the
  interpreter's current environment untouched; \<^verbatim>\<open>RuntimeEnv.call_function\<close>, for a
  function its table knows, raises \<^verbatim>\<open>Function '<name>' expects <params> arguments,
  got <arguments>.\<close> and leaves the runtime environment as it was (no frame is pushed).
\<close>

theorem arity_mismatch_raises:
  "(length arguments \<noteq> length params \<longrightarrow>
      call p n (Function fid (FunctionDefNode fname params body line column) closure)
        st arguments =
        Some (Inl (RuntimeError
                     (''Expected '' @ str_int (int (length params)) @ '' arguments but got '' @
                      str_int (int (length arguments)))
                     (Some line) (Some column)),
              snd (Environment_new st closure))
      \<and> env (snd (Environment_new st closure)) = env st
      \<and> (\<forall>a. a \<noteq> next_env st \<longrightarrow>
             env_values (snd (Environment_new st closure)) a = env_values st a))
   \<and> (lookup_function fn = Inr ps \<and> length args \<noteq> length ps \<longrightarrow>
        call_function renv fn args =
          (Inl (RuntimeError_env
                  (''Function '' @ [CHR 0x27] @ fn @ [CHR 0x27] @ '' expects '' @
                   str_int (int (length ps)) @ '' arguments, got '' @
                   str_int (int (length args)) @ ''.'')), renv))"
  by (simp add: call_def Function_call_arity call_function_arity Environment_new_def)

theorem arity_mismatch_raises_witness:
  "call float_free 0
     (Function 0 (FunctionDefNode ''f'' [''a'', ''b''] (BlockNode [] 1 1) 4 2) None)
     Interpreter_init [Basic (PInt 7)] =
     Some (Inl (RuntimeError ''Expected 2 arguments but got 1'' (Some 4) (Some 2)),
           snd (Environment_new Interpreter_init None))
   \<and> call_function (RuntimeEnv_init :: int runtime_env) ''foo'' [1, 2, 3] =
       (Inl (RuntimeError_env (''Function '' @ [CHR 0x27] @ ''foo'' @ [CHR 0x27] @
                               '' expects 2 arguments, got 3.'')), RuntimeEnv_init)"
  using arity_mismatch_raises
          [of "[Basic (PInt 7)]" "[''a'', ''b'']" float_free 0 0 "''f''" "BlockNode [] 1 1" 4 2
              None Interpreter_init "''foo''" "[''x'', ''y'']" "[1, 2, 3]"
              "RuntimeEnv_init :: int runtime_env"]
  by (simp add: lookup_function_def example_functions_def str_int_def digit_char_def)

lemma Function_call_env:
  assumes acc: "\<And>node st r st'. acc node st = Some (r, st') \<Longrightarrow> env st' = env st"
    and c: "Function_call acc (Function fid (FunctionDefNode fname params body line column) closure)
              st arguments = Some (r, st')"
    and len: "length arguments = length params"
  shows "env st' = closure"
proof -
  define e where "e = Environment (next_env st) closure"
  define st1 where "st1 = snd (Environment_new st closure)"
  define st2 where
    "st2 = fold (\<lambda>(nm, v) s. Environment_define s e nm v) (zip params arguments) st1"
  define st3 where "st3 = (push_env st2)\<lparr>env := Some e\<rparr>"
  have en: "Environment_new st closure = (e, st1)"
    by (simp add: Environment_new_def e_def st1_def)
  from c len en obtain r4 st4 where b: "acc body st3 = Some (r4, st4)"
    by (auto simp: Function_call_def st2_def st3_def Let_def split: option.splits)
  have e4: "env st4 = Some e"
    using acc [OF b] by (simp add: st3_def)
  from c len en b have "\<exists>r5. finally_pop_env (r5, st4) = (r, st')"
    by (auto simp: Function_call_def st2_def st3_def Let_def split: sum.splits exc.splits)
  then show ?thesis
    by (auto simp: finally_pop_env_Some [OF e4] e_def)
qed

text \<open>
  C4. When \<^verbatim>\<open>Function.call\<close> finishes after a call with the right number of
  arguments (the body ended, returned or raised), the interpreter's current environment
  is the closure of the function: \<^verbatim>\<open>interpreter.env = env\<close> has overwritten the
  environment that \<^verbatim>\<open>push_env\<close> pushed, so \<^verbatim>\<open>pop_env\<close> goes to the parent of the
  call's own environment. That is the caller's environment only when the caller runs in
  the environment the function was declared in.
\<close>

theorem function_call_ends_in_closure:
  assumes "call p n (Function fid (FunctionDefNode fname params body line column) closure)
             st arguments = Some (r, st')"
    and "length arguments = length params"
  shows "env st' = closure"
  using assms(1) unfolding call_def
  by (rule Function_call_env [rotated]) (rule assms(2), rule accept_env)

theorem function_call_ends_in_closure_witness:
  "map_option (\<lambda>(r, st'). (r, env st'))
     (call float_free 2
        (Function 0 (FunctionDefNode ''f'' [] (BlockNode [] 1 1) 1 1) (Some (Environment 0 None)))
        (push_env Interpreter_init) []) =
     Some (Inr (Basic PNone), Some (Environment 0 None))
   \<and> env (push_env Interpreter_init) = Some (Environment 1 (Some (Environment 0 None)))"
  using function_call_ends_in_closure
          [of float_free 2 0 "''f''" "[]" "BlockNode [] 1 1" 1 1 "Some (Environment 0 None)"
              "push_env Interpreter_init" "[]"]
  by (simp add: call_def Function_call_def Environment_new_def push_env_def Interpreter_init_def
        visit_block_def finally_pop_env_def pop_env_def numeral_2_eq_2)

subsection \<open>IR optimizer\<close>

lemma set_children_same: "set_children s a (children (objects s a)) = s"
  by (simp add: set_children_def)

lemma truediv_zero_raises: "is_zero p b \<Longrightarrow> \<exists>e. py_binop p Op_truediv a b = Inl e"
  by (cases a; cases b) (auto simp: py_binop_def)

lemma is_zero_equal:
  "is_zero p b \<Longrightarrow> is_numeric (Basic b) \<and> value_equal p (Basic b) (Basic (PInt 0))"
  by (cases b) auto

lemma fold_constant:
  assumes "cls (objects s a) = IR_ConstantNode v t" and "children (objects s a) = []"
  shows "constant_folding_pass p (Suc n) s a = Some (Inr a, s)"
proof -
  have "set_children s a [] = s"
    using assms(2) set_children_same [of s a] by simp
  then show ?thesis
    using assms by (simp add: fold_node_def node_type_def)
qed

lemma fold_division_by_zero:
  assumes l: "cls (objects s l) = IR_ConstantNode a ta" "children (objects s l) = []"
    and r: "cls (objects s r) = IR_ConstantNode b tb" "children (objects s r) = []"
    and z: "is_zero p b"
    and node: "cls (objects s node) = IR_BinaryOpNode ''/'' l r" "children (objects s node) = [l, r]"
  shows "constant_folding_pass p (Suc (Suc n)) s node = Some (Inr node, s)"
proof -
  have kids: "pass_all (constant_folding_pass p (Suc n)) [l, r] s = Some (Inr [l, r], s)"
    by (simp del: constant_folding_pass.simps add: fold_constant [OF l] fold_constant [OF r])
  have same: "set_children s node [l, r] = s"
    using node(2) set_children_same [of s node] by simp
  obtain e where e: "py_binop p Op_truediv a b = Inl e"
    using truediv_zero_raises [OF z] by blast
  have fb: "fold_binary_op p s node = (node, s)"
    using l r node e
    by (simp add: fold_binary_op_def is_constant_node_def node_type_def evaluate_binary_op_def
          ops_table_def)
  have "fold_node p (constant_folding_pass p (Suc n)) s node = Some (Inr node, s)"
    unfolding fold_node_def using node kids same fb
    by (simp add: node_type_def)
  then show ?thesis by simp
qed

lemma dce_other:
  "node_type s node \<noteq> FUNCTION \<Longrightarrow> node_type s node \<noteq> BLOCK \<Longrightarrow>
   dead_code_elimination_pass (Suc n) s node = Some (Inr node, s)"
  by (simp add: eliminate_node_def)

lemma interpret_division_by_zero:
  "is_zero p b \<Longrightarrow>
   accept p (Suc (Suc k))
     (BinaryOpNode (LiteralNode a l1 c1) ''/'' (LiteralNode b l2 c2) line column) st =
     Some (Inl (RuntimeError (if is_number a then ''Division by zero''
                              else ''Operands must be numeric'') (Some line) (Some column)), st)"
  using is_zero_equal [of p b] is_numeric.simps(1) [of a]
  by (simp add: visit_binary_op_def binary_op_def check_numeric_def
           del: value_equal.simps is_numeric.simps)

text \<open>
  C6. Let an IR \<^verbatim>\<open>BinaryOpNode('/', left, right)\<close> have \<^verbatim>\<open>ConstantNode\<close> operands,
  the right one of a value equal to \<^verbatim>\<open>0\<close> (\<^verbatim>\<open>0\<close>, \<^verbatim>\<open>0.0\<close> or
  \<^verbatim>\<open>False\<close>), whatever the value of the left one. Then
  \<^verbatim>\<open>optimize()\<close> ends without raising and returns that very node, with the store of
  nodes unchanged: the division is not replaced by a constant. Evaluating the same
  division in the interpreter raises a \<^verbatim>\<open>RuntimeError\<close> at the position of the
  operator: \<^verbatim>\<open>Division by zero\<close> when the left operand is a number, \<^verbatim>\<open>Operands must
  be numeric\<close> otherwise.
\<close>

theorem division_by_constant_zero:
  assumes "cls (objects s l) = IR_ConstantNode a ta" and "children (objects s l) = []"
    and "cls (objects s r) = IR_ConstantNode b tb" and "children (objects s r) = []"
    and "is_zero p b"
    and "cls (objects s node) = IR_BinaryOpNode ''/'' l r"
    and "children (objects s node) = [l, r]"
  shows "optimize p (Suc (Suc n)) s node = Some (Inr node, s)
       \<and> cls (objects s node) = IR_BinaryOpNode ''/'' l r
       \<and> accept p (Suc (Suc k))
           (BinaryOpNode (LiteralNode a l1 c1) ''/'' (LiteralNode b l2 c2) line column) st =
           Some (Inl (RuntimeError (if is_number a then ''Division by zero''
                                    else ''Operands must be numeric'')
                        (Some line) (Some column)), st)"
proof -
  have f: "constant_folding_pass p (Suc (Suc n)) s node = Some (Inr node, s)"
    using assms by (rule fold_division_by_zero)
  have t: "node_type s node = EXPRESSION"
    using assms(6) by (simp add: node_type_def)
  have d: "dead_code_elimination_pass (Suc (Suc n)) s node = Some (Inr node, s)"
    using t by (simp del: dead_code_elimination_pass.simps add: dce_other)
  have "optimize p (Suc (Suc n)) s node = Some (Inr node, s)"
    unfolding optimize_def using f d by simp
  then show ?thesis
    using assms(6) interpret_division_by_zero [OF assms(5)] by simp
qed

lemma one_by_zero_store:
  "fst one_by_zero_example = Suc (Suc 0)"
  "cls (objects (snd one_by_zero_example) 0) = IR_ConstantNode (PInt 1) (Some ''int'')"
  "children (objects (snd one_by_zero_example) 0) = []"
  "cls (objects (snd one_by_zero_example) (Suc 0)) = IR_ConstantNode (PInt 0) (Some ''int'')"
  "children (objects (snd one_by_zero_example) (Suc 0)) = []"
  "cls (objects (snd one_by_zero_example) (Suc (Suc 0))) = IR_BinaryOpNode ''/'' 0 (Suc 0)"
  "children (objects (snd one_by_zero_example) (Suc (Suc 0))) = [0, Suc 0]"
  by (simp_all add: one_by_zero_example_def new_ConstantNode_def new_BinaryOpNode_def
        new_node_def empty_store_def)

theorem division_by_constant_zero_witness:
  "optimize float_free 2 (snd one_by_zero_example) (fst one_by_zero_example) =
     Some (Inr (fst one_by_zero_example), snd one_by_zero_example)
   \<and> cls (objects (snd one_by_zero_example) (fst one_by_zero_example)) =
       IR_BinaryOpNode ''/'' 0 1
   \<and> accept float_free 2
       (BinaryOpNode (LiteralNode (PInt 1) 1 1) ''/'' (LiteralNode (PInt 0) 1 5) 1 3)
       Interpreter_init =
       Some (Inl (RuntimeError ''Division by zero'' (Some 1) (Some 3)), Interpreter_init)"
  using division_by_constant_zero
          [of "snd one_by_zero_example" 0 "PInt 1" "Some ''int''" "Suc 0" "PInt 0" "Some ''int''"
              float_free "Suc (Suc 0)" 0 0 1 1 1 5 1 3 Interpreter_init]
  by (simp add: one_by_zero_store numeral_2_eq_2)

text \<open>
  C1. On the IR expression \<^verbatim>\<open>2 + 3 * 4\<close> the constant-folding pass returns the
  \<^verbatim>\<open>+\<close> node itself, not a constant: it has folded the product to a new
  \<^verbatim>\<open>ConstantNode\<close> of value \<^verbatim>\<open>12\<close> and put it in the \<^verbatim>\<open>children\<close> of the
  sum, but \<^verbatim>\<open>_fold_binary_op\<close> reads \<^verbatim>\<open>node.right\<close>, which is still the
  \<^verbatim>\<open>*\<close> node; no node of value \<^verbatim>\<open>14\<close> is made.
\<close>

theorem constant_folding_leaves_sum:
  "\<exists>s'. constant_folding_pass p (Suc (Suc (Suc n))) (snd two_plus_three_times_four)
            (fst two_plus_three_times_four) = Some (Inr (fst two_plus_three_times_four), s')
     \<and> node_type s' (fst two_plus_three_times_four) = EXPRESSION
     \<and> cls (objects s' (fst two_plus_three_times_four)) = IR_BinaryOpNode ''+'' 0 3
     \<and> children (objects s' (fst two_plus_three_times_four)) = [0, 5]
     \<and> cls (objects s' 0) = IR_ConstantNode (PInt 2) (Some ''int'')
     \<and> cls (objects s' 3) = IR_BinaryOpNode ''*'' 1 2
     \<and> cls (objects s' 5) = IR_ConstantNode (PInt 12) (Some ''int'')
     \<and> next_node s' = 6"
  by (simp add: two_plus_three_times_four_def new_ConstantNode_def new_BinaryOpNode_def
        new_node_def empty_store_def fold_node_def set_children_def node_type_def
        fold_binary_op_def is_constant_node_def evaluate_binary_op_def ops_table_def py_binop_def)

lemma if_true_store:
  "fst if_true_example = 5"
  "node_type (snd if_true_example) 5 = IF"
  "cls (objects (snd if_true_example) 5) = IR_IfNode 0 [2] [4]"
  "children (objects (snd if_true_example) 5) = [0, 2, 4]"
  "cls (objects (snd if_true_example) 0) = IR_ConstantNode (PBool True) (Some ''bool'')"
  by (simp_all add: if_true_example_def new_ConstantNode_def new_ReturnNode_def new_IfNode_def
        new_node_def empty_store_def node_type_def)

lemma while_false_store:
  "fst while_false_example = 3"
  "node_type (snd while_false_example) 3 = WHILE"
  "cls (objects (snd while_false_example) 3) = IR_WhileNode 0 [2]"
  "children (objects (snd while_false_example) 3) = [0, 2]"
  "cls (objects (snd while_false_example) 0) = IR_ConstantNode (PBool False) (Some ''bool'')"
  by (simp_all add: while_false_example_def new_ConstantNode_def new_ReturnNode_def
        new_WhileNode_def new_node_def empty_store_def node_type_def)

text \<open>
  The whole of \<^verbatim>\<open>optimize()\<close>, folding first, leaves both examples as they are.
\<close>

lemma optimize_keeps_constant_conditions:
  "optimize p (Suc (Suc (Suc n))) (snd if_true_example) (fst if_true_example) =
     Some (Inr (fst if_true_example), snd if_true_example)"
  "optimize p (Suc (Suc (Suc n))) (snd while_false_example) (fst while_false_example) =
     Some (Inr (fst while_false_example), snd while_false_example)"
  by (simp_all add: optimize_def if_true_example_def while_false_example_def
        new_ConstantNode_def new_ReturnNode_def new_IfNode_def new_WhileNode_def new_node_def
        empty_store_def fold_node_def set_children_def node_type_def eliminate_node_def)

text \<open>
  C2. \<^verbatim>\<open>dead_code_elimination_pass\<close> has a branch for \<^verbatim>\<open>FUNCTION\<close> and one for
  \<^verbatim>\<open>BLOCK\<close> nodes and returns every other node unchanged. So an \<^verbatim>\<open>IF\<close> node and a
  \<^verbatim>\<open>WHILE\<close> node come back from the pass as they went in, whatever their condition,
  and the store of nodes is left as it was: no \<^verbatim>\<open>if\<close> is replaced by its taken
  branch and no \<^verbatim>\<open>while\<close> by an empty block.
\<close>

theorem dce_returns_if_and_while:
  "node_type s node = IF \<or> node_type s node = WHILE \<Longrightarrow>
   dead_code_elimination_pass (Suc n) s node = Some (Inr node, s)"
  by (auto simp: eliminate_node_def)

text \<open>
  The \<^verbatim>\<open>IfNode\<close> of \<^verbatim>\<open>if True: return 1 else: return 2\<close> keeps its condition and
  both branches, and the \<^verbatim>\<open>WhileNode\<close> of \<^verbatim>\<open>while False: return 1\<close> keeps its
  condition and its body.
\<close>

theorem dce_returns_if_and_while_witness:
  "dead_code_elimination_pass 1 (snd if_true_example) (fst if_true_example) =
     Some (Inr (fst if_true_example), snd if_true_example)
   \<and> cls (objects (snd if_true_example) (fst if_true_example)) = IR_IfNode 0 [2] [4]
   \<and> children (objects (snd if_true_example) (fst if_true_example)) = [0, 2, 4]
   \<and> cls (objects (snd if_true_example) 0) = IR_ConstantNode (PBool True) (Some ''bool'')
   \<and> dead_code_elimination_pass 1 (snd while_false_example) (fst while_false_example) =
     Some (Inr (fst while_false_example), snd while_false_example)
   \<and> cls (objects (snd while_false_example) (fst while_false_example)) = IR_WhileNode 0 [2]
   \<and> children (objects (snd while_false_example) (fst while_false_example)) = [0, 2]
   \<and> cls (objects (snd while_false_example) 0) = IR_ConstantNode (PBool False) (Some ''bool'')"
  using dce_returns_if_and_while [of "snd if_true_example" 5 0]
        dce_returns_if_and_while [of "snd while_false_example" 3 0]
  by (simp add: if_true_store while_false_store del: dead_code_elimination_pass.simps)

end
